theory Spec2Isabelle
  imports
    Complex_Main
    "HOL-Library.Char_ord"
    "HOL-Library.Log_Nat"
    "HOL-Library.List_Lexorder"
    "HOL-Library.Option_ord"
begin

section \<open>JavaScript values used by the recipe server\<close>

text \<open>
  A JavaScript number is NaN, an infinity, or a finite double, kept as the rational it
  denotes. Positive and negative zero are both \<open>Fin 0\<close>: they are equally falsy and print
  alike. The operators \<open>-\<close>, \<open>*\<close> and \<open>/\<close> compute the exact result and round it to the
  nearest double, ties to the even significand (IEEE 754 binary64: a significand of 53
  bits, exponents from \<open>-1022\<close> to \<open>1023\<close>, gradual underflow, overflow to an infinity).
\<close>

datatype jsnum = NaN | PosInf | NegInf | Fin rat

definition inf_of_sign :: "bool \<Rightarrow> jsnum" where
  "inf_of_sign neg = (if neg then NegInf else PosInf)"

text \<open>The exponent of a positive rational: the integer \<open>e\<close> with \<open>2^e \<le> x < 2^(e+1)\<close>.\<close>

definition ilog2 :: "rat \<Rightarrow> int" where
  "ilog2 x =
     (case quotient_of x of
        (p, q) \<Rightarrow> (let c = bitlen p - bitlen q in if 2 powi c \<le> x then c else c - 1))"

text \<open>The nearest integer, the even one of the two when they are equally near.\<close>

definition nearest_even :: "rat \<Rightarrow> int" where
  "nearest_even y =
     (let f = \<lfloor>y\<rfloor>; d = y - of_int f
      in if d < 1 / 2 then f else if 1 / 2 < d then f + 1 else if even f then f else f + 1)"

text \<open>
  The double nearest to a rational: a multiple \<open>m * 2^(e - 52)\<close> of the unit in the last
  place, where \<open>e\<close> is the exponent of the number, or \<open>-1022\<close> for a subnormal one. A
  rounded value of \<open>2^1024\<close> or more is an infinity.
\<close>

definition to_double :: "rat \<Rightarrow> jsnum" where
  "to_double x =
     (if x = 0 then Fin 0
      else
        (let e = max (ilog2 \<bar>x\<bar>) (- 1022);
             u = 2 powi (e - 52);
             m = nearest_even (\<bar>x\<bar> / u)
         in if 1023 < e \<or> (e = 1023 \<and> 2 ^ 53 \<le> m) then inf_of_sign (x < 0)
            else Fin (sgn x * (of_int m * u))))"

text \<open>Truthiness of a number, as \<open>||\<close> tests it: NaN and zero are falsy.\<close>

fun truthy_num :: "jsnum \<Rightarrow> bool" where
  "truthy_num NaN = False"
| "truthy_num (Fin q) = (q \<noteq> 0)"
| "truthy_num PosInf = True"
| "truthy_num NegInf = True"

definition js_or :: "jsnum \<Rightarrow> jsnum \<Rightarrow> jsnum" where
  "js_or a b = (if truthy_num a then a else b)"

fun Math_min :: "jsnum \<Rightarrow> jsnum \<Rightarrow> jsnum" where
  "Math_min NaN b = NaN"
| "Math_min a NaN = NaN"
| "Math_min NegInf b = NegInf"
| "Math_min a NegInf = NegInf"
| "Math_min PosInf b = b"
| "Math_min a PosInf = a"
| "Math_min (Fin a) (Fin b) = Fin (min a b)"

fun js_sub :: "jsnum \<Rightarrow> jsnum \<Rightarrow> jsnum" where
  "js_sub NaN b = NaN"
| "js_sub a NaN = NaN"
| "js_sub PosInf PosInf = NaN"
| "js_sub NegInf NegInf = NaN"
| "js_sub PosInf b = PosInf"
| "js_sub NegInf b = NegInf"
| "js_sub a PosInf = NegInf"
| "js_sub a NegInf = PosInf"
| "js_sub (Fin a) (Fin b) = to_double (a - b)"

fun js_mul :: "jsnum \<Rightarrow> jsnum \<Rightarrow> jsnum" where
  "js_mul NaN b = NaN"
| "js_mul a NaN = NaN"
| "js_mul (Fin a) (Fin b) = to_double (a * b)"
| "js_mul (Fin a) PosInf = (if a = 0 then NaN else inf_of_sign (a < 0))"
| "js_mul (Fin a) NegInf = (if a = 0 then NaN else inf_of_sign (0 < a))"
| "js_mul PosInf (Fin b) = (if b = 0 then NaN else inf_of_sign (b < 0))"
| "js_mul NegInf (Fin b) = (if b = 0 then NaN else inf_of_sign (0 < b))"
| "js_mul PosInf PosInf = PosInf"
| "js_mul NegInf NegInf = PosInf"
| "js_mul PosInf NegInf = NegInf"
| "js_mul NegInf PosInf = NegInf"

fun js_div :: "jsnum \<Rightarrow> jsnum \<Rightarrow> jsnum" where
  "js_div NaN b = NaN"
| "js_div a NaN = NaN"
| "js_div (Fin a) (Fin b) =
     (if b = 0 then (if a = 0 then NaN else inf_of_sign (a < 0)) else to_double (a / b))"
| "js_div (Fin a) b = Fin 0"
| "js_div PosInf (Fin b) = inf_of_sign (b < 0)"
| "js_div NegInf (Fin b) = inf_of_sign (0 \<le> b)"
| "js_div a b = NaN"

fun Math_ceil :: "jsnum \<Rightarrow> jsnum" where
  "Math_ceil (Fin q) = Fin (of_int \<lceil>q\<rceil>)"
| "Math_ceil a = a"

text \<open>
  A value of \<open>req.query\<close>, as the query-string parser of Express delivers it: a string,
  an array (a parameter given several times) or a nested object (\<open>a[b]=c\<close>).
\<close>

datatype qval = QStr string | QArr "qval list" | QObj "(string \<times> qval) list"

text \<open>JSON values: bodies of responses and the content of cached texts.\<close>

datatype json =
    JNull
  | JBool bool
  | JNum rat
  | JStr string
  | JArr "json list"
  | JObj "(string \<times> json) list"

fun join_comma :: "string list \<Rightarrow> string" where
  "join_comma [] = []"
| "join_comma [s] = s"
| "join_comma (s # t # ss) = s @ '','' @ join_comma (t # ss)"

text \<open>String conversion of a query value (template literal): arrays join with a comma.\<close>

primrec ToString :: "qval \<Rightarrow> string" where
  "ToString (QStr s) = s"
| "ToString (QArr xs) = join_comma (map ToString xs)"
| "ToString (QObj kvs) = ''[object Object]''"

primrec qval_json :: "qval \<Rightarrow> json" where
  "qval_json (QStr s) = JStr s"
| "qval_json (QArr xs) = JArr (map qval_json xs)"
| "qval_json (QObj kvs) = JObj (map (map_prod id qval_json) kvs)"

text \<open>
  A number in a JSON body: \<open>JSON.stringify\<close> writes NaN and the infinities as \<open>null\<close>.
\<close>

fun num_json :: "jsnum \<Rightarrow> json" where
  "num_json (Fin q) = JNum q"
| "num_json a = JNull"

text \<open>
  The compiled regular expression \<open>new RegExp(source, flags)\<close>, as sent to the store.
\<close>

record regex =
  source :: string
  flags :: string

subsection \<open>Recipes\<close>

text \<open>
  Modelled from the spec: the element of \<open>ingredients\<close> in the Recipe model
  (\<open>./models/recipe\<close> is imported by the server and is not among the sources). The spec
  gives it a name.
\<close>

record ingredient =
  name :: string

text \<open>
  Modelled from the spec: the fields of the Recipe model (\<open>./models/recipe\<close>, not among
  the sources). The spec names title, ingredients, utensils, difficulty, total time and
  instructions; a document, and the body of a request, may lack any of them.
\<close>

record fields =
  title :: "string option"
  ingredients :: "ingredient list option"
  utensils :: "string list option"
  difficulty :: "string option"
  total_time :: "string option"
  instructions :: "string list option"

text \<open>
  Modelled from the spec: a document of the Recipe collection (\<open>./models/recipe\<close>, not
  among the sources), which is its identifier \<open>_id\<close> and its fields.
\<close>

record recipe =
  rid :: string
  content :: fields

subsection \<open>What the server uses and does not define\<close>

text \<open>
  The ECMAScript built-ins, the regular expression engine of the store and the schema
  validation are parameters of the model:
  \<^item> \<open>StringToNumber s\<close> is \<open>Number(s)\<close> on a string;
  \<^item> \<open>NumberToString x\<close> is the text of a number in a template literal;
  \<^item> \<open>RegExp_error p\<close> is the message of the SyntaxError that \<open>new RegExp(p, "i")\<close>
    throws, if it throws;
  \<^item> \<open>regex_match r s\<close> tells whether the store's \<open>$regex\<close> operator finds \<open>r\<close> in \<open>s\<close>;
  \<^item> \<open>validate f\<close> is the message of the validation error of \<open>save()\<close>, if any;
  \<^item> \<open>ObjectId_isValid i\<close> is \<open>mongoose.Types.ObjectId.isValid(i)\<close>;
  \<^item> \<open>cast_error i\<close> is the message of the error thrown when a query by identifier
    cannot cast \<open>i\<close> to an ObjectId, if it cannot.
\<close>

record deps =
  StringToNumber :: "string \<Rightarrow> jsnum"
  NumberToString :: "jsnum \<Rightarrow> string"
  RegExp_error :: "string \<Rightarrow> string option"
  regex_match :: "regex \<Rightarrow> string \<Rightarrow> bool"
  validate :: "fields \<Rightarrow> string option"
  ObjectId_isValid :: "string \<Rightarrow> bool"
  cast_error :: "string \<Rightarrow> string option"

text \<open>
  \<open>Number(v)\<close> on a query value: an array is converted through its string, an object
  gives NaN; \<open>Number(undefined)\<close> is NaN.
\<close>

fun ToNumber :: "deps \<Rightarrow> qval \<Rightarrow> jsnum" where
  "ToNumber D (QStr s) = StringToNumber D s"
| "ToNumber D (QArr xs) = StringToNumber D (ToString (QArr xs))"
| "ToNumber D (QObj kvs) = NaN"

definition Number_opt :: "deps \<Rightarrow> qval option \<Rightarrow> jsnum" where
  "Number_opt D v = (case v of None \<Rightarrow> NaN | Some q \<Rightarrow> ToNumber D q)"

section \<open>GET /recipes: normalisation and the cache key\<close>

text \<open>The four parameters the handler reads from \<open>req.query\<close>; each may be absent.\<close>

record query =
  q_page :: "qval option"
  q_pageSize :: "qval option"
  q_search :: "qval option"
  q_difficulty :: "qval option"

text \<open>\<open>const { page = 1 } = req.query\<close>: the number 1 when absent, else the raw value.\<close>

datatype page_value = PNumber jsnum | PRaw qval

definition page_of :: "query \<Rightarrow> page_value" where
  "page_of q = (case q_page q of None \<Rightarrow> PNumber (Fin 1) | Some v \<Rightarrow> PRaw v)"

fun page_string :: "deps \<Rightarrow> page_value \<Rightarrow> string" where
  "page_string D (PNumber x) = NumberToString D x"
| "page_string D (PRaw v) = ToString v"

fun page_number :: "deps \<Rightarrow> page_value \<Rightarrow> jsnum" where
  "page_number D (PNumber x) = x"
| "page_number D (PRaw v) = ToNumber D v"

fun page_json :: "page_value \<Rightarrow> json" where
  "page_json (PNumber x) = num_json x"
| "page_json (PRaw v) = qval_json v"

text \<open>\<open>Math.min(Number(req.query.pageSize) || 10, 100)\<close>\<close>

definition pageSize_of :: "deps \<Rightarrow> query \<Rightarrow> jsnum" where
  "pageSize_of D q = Math_min (js_or (Number_opt D (q_pageSize q)) (Fin 10)) (Fin 100)"

text \<open>\<open>typeof v === "string" ? v : ""\<close>\<close>

fun string_or_empty :: "qval option \<Rightarrow> string" where
  "string_or_empty (Some (QStr s)) = s"
| "string_or_empty v = ''''"

definition search_of :: "query \<Rightarrow> string" where
  "search_of q = string_or_empty (q_search q)"

definition difficulty_of :: "query \<Rightarrow> string" where
  "difficulty_of q = string_or_empty (q_difficulty q)"

definition cacheKey :: "deps \<Rightarrow> query \<Rightarrow> string" where
  "cacheKey D q =
     ''recipes:page='' @ page_string D (page_of q) @
     ''&pageSize='' @ NumberToString D (pageSize_of D q) @
     ''&search='' @ search_of q @
     ''&difficulty='' @ difficulty_of q"

section \<open>The cache and the store\<close>

text \<open>
  A string held by the cache. \<open>JSON.stringify\<close> produces the text of a JSON value, and
  \<open>JSON.parse\<close> of that text gives the value back: such a text is represented by the value
  it denotes. \<open>OtherText s\<close> is a string that is not a JSON text (\<open>JSON.parse\<close> throws on
  it); with the empty \<open>s\<close> it is the empty string, the only falsy string.
\<close>

datatype cached = JsonText json | OtherText string

definition JSON_stringify :: "json \<Rightarrow> cached" where
  "JSON_stringify v = JsonText v"

fun JSON_parse :: "cached \<Rightarrow> string + json" where
  "JSON_parse (JsonText v) = Inr v"
| "JSON_parse (OtherText s) = Inl ''Unexpected token in JSON''"

fun truthy_text :: "cached \<Rightarrow> bool" where
  "truthy_text (JsonText v) = True"
| "truthy_text (OtherText s) = (s \<noteq> [])"

subsection \<open>The aggregation issued by GET /recipes\<close>

text \<open>\<open>{ path: { $regex: r } }\<close>, alone or under \<open>$or\<close>; the keys of a filter are conjoined.\<close>

datatype criterion = Regex string regex

datatype condition = Field criterion | Or "criterion list"

type_synonym filter = "condition list"

datatype stage =
    Sort string int
  | Skip jsnum
  | Limit jsnum
  | Project "string list"

text \<open>
  The pipeline \<open>[{$match: m}, {$facet: {recipes: stages, totalCount: [{$count: c}]}}]\<close>.
\<close>

record pipeline =
  p_match :: filter
  p_recipes :: "stage list"
  p_totalCount :: string

record facets =
  out_recipes :: "recipe list"
  out_totalCount :: "(string \<times> nat) list"

text \<open>The strings a document holds at a path; an array is searched element by element.\<close>

definition opt_list :: "'a option \<Rightarrow> 'a list" where
  "opt_list v = (case v of None \<Rightarrow> [] | Some x \<Rightarrow> [x])"

definition opt_concat :: "'a list option \<Rightarrow> 'a list" where
  "opt_concat v = (case v of None \<Rightarrow> [] | Some xs \<Rightarrow> xs)"

definition strings_at :: "string \<Rightarrow> recipe \<Rightarrow> string list" where
  "strings_at path r =
     (if path = ''title'' then opt_list (title (content r))
      else if path = ''difficulty'' then opt_list (difficulty (content r))
      else if path = ''total time'' then opt_list (total_time (content r))
      else if path = ''ingredients.name'' then map name (opt_concat (ingredients (content r)))
      else if path = ''utensils'' then opt_concat (utensils (content r))
      else if path = ''instructions'' then opt_concat (instructions (content r))
      else if path = ''_id'' then [rid r]
      else [])"

fun holds :: "deps \<Rightarrow> recipe \<Rightarrow> criterion \<Rightarrow> bool" where
  "holds D r (Regex path rx) = list_ex (regex_match D rx) (strings_at path r)"

fun satisfies :: "deps \<Rightarrow> recipe \<Rightarrow> condition \<Rightarrow> bool" where
  "satisfies D r (Field c) = holds D r c"
| "satisfies D r (Or cs) = list_ex (holds D r) cs"

definition matches :: "deps \<Rightarrow> filter \<Rightarrow> recipe \<Rightarrow> bool" where
  "matches D f r = list_all (satisfies D r) f"

text \<open>The key of \<open>$sort\<close>: a missing field sorts before every string.\<close>

definition sort_field :: "string \<Rightarrow> recipe \<Rightarrow> string option" where
  "sort_field path r =
     (if path = ''title'' then title (content r)
      else if path = ''difficulty'' then difficulty (content r)
      else if path = ''total time'' then total_time (content r)
      else if path = ''_id'' then Some (rid r)
      else None)"

definition keep :: "string list \<Rightarrow> string \<Rightarrow> 'a option \<Rightarrow> 'a option" where
  "keep fs f v = (if f \<in> set fs then v else None)"

text \<open>\<open>$project\<close> with inclusions keeps the identifier and the listed fields.\<close>

definition project :: "string list \<Rightarrow> recipe \<Rightarrow> recipe" where
  "project fs r =
     \<lparr> rid = rid r,
       content = \<lparr> title = keep fs ''title'' (title (content r)),
                   ingredients = keep fs ''ingredients'' (ingredients (content r)),
                   utensils = keep fs ''utensils'' (utensils (content r)),
                   difficulty = keep fs ''difficulty'' (difficulty (content r)),
                   total_time = keep fs ''total time'' (total_time (content r)),
                   instructions = keep fs ''instructions'' (instructions (content r)) \<rparr> \<rparr>"

definition is_integer :: "rat \<Rightarrow> bool" where
  "is_integer q = (of_int \<lfloor>q\<rfloor> = q)"

text \<open>
  The store takes the arguments of \<open>$skip\<close> and \<open>$limit\<close> as 64-bit integers: it rejects a
  \<open>$skip\<close> that is not an integer from 0 to \<open>2^63 - 1\<close> and a \<open>$limit\<close> that is not an integer
  from 1 to \<open>2^63 - 1\<close>; the messages abbreviate the server's. Ties of \<open>$sort\<close> keep the
  order of the collection.
\<close>

fun run_stage :: "stage \<Rightarrow> recipe list \<Rightarrow> string + recipe list" where
  "run_stage (Sort path dir) rs =
     Inr (if dir = 1 then sort_key (sort_field path) rs
          else rev (sort_key (sort_field path) (rev rs)))"
| "run_stage (Skip (Fin q)) rs =
     (if is_integer q \<and> 0 \<le> q \<and> q < 2 ^ 63 then Inr (drop (nat \<lfloor>q\<rfloor>) rs)
      else Inl ''invalid argument to $skip stage'')"
| "run_stage (Skip x) rs = Inl ''invalid argument to $skip stage''"
| "run_stage (Limit (Fin q)) rs =
     (if is_integer q \<and> 0 < q \<and> q < 2 ^ 63 then Inr (take (nat \<lfloor>q\<rfloor>) rs)
      else Inl ''invalid argument to $limit stage'')"
| "run_stage (Limit x) rs = Inl ''invalid argument to $limit stage''"
| "run_stage (Project fs) rs = Inr (map (project fs) rs)"

fun run_stages :: "stage list \<Rightarrow> recipe list \<Rightarrow> string + recipe list" where
  "run_stages [] rs = Inr rs"
| "run_stages (s # ss) rs =
     (case run_stage s rs of Inl m \<Rightarrow> Inl m | Inr rs' \<Rightarrow> run_stages ss rs')"

text \<open>\<open>$count\<close> emits no document on an empty input, and \<open>$facet\<close> emits one document.\<close>

definition run_count :: "string \<Rightarrow> recipe list \<Rightarrow> (string \<times> nat) list" where
  "run_count c rs = (if rs = [] then [] else [(c, length rs)])"

definition run_pipeline :: "deps \<Rightarrow> pipeline \<Rightarrow> recipe list \<Rightarrow> string + facets list" where
  "run_pipeline D p ds =
     (let matched = filter (matches D (p_match p)) ds in
      case run_stages (p_recipes p) matched of
        Inl m \<Rightarrow> Inl m
      | Inr rs \<Rightarrow>
          Inr [\<lparr> out_recipes = rs, out_totalCount = run_count (p_totalCount p) matched \<rparr>])"

subsection \<open>State, environment and the calls to the cache and the store\<close>

datatype call =
    RedisGet string
  | RedisSet string cached nat
  | RedisDel string
  | RedisPing
  | Aggregate pipeline
  | Save recipe
  | FindById string
  | FindByIdAndUpdate string fields
  | FindByIdAndDelete string

text \<open>
  The state: the cache (a text and the time it expires at, per key), the collection, the
  ready state of the store connection, what \<open>console.error\<close> printed (label and message)
  and the calls issued to the cache and the store so far.
\<close>

record world =
  cache :: "string \<Rightarrow> (cached \<times> nat) option"
  docs :: "recipe list"
  ready :: bool
  console :: "(string \<times> string) list"
  calls :: "call list"

text \<open>
  What one request meets: the time in seconds, the errors the cache and the store raise
  (the message, if the call fails), the reply to a ping, the identifier given to a new
  document, and the figures of the process.
\<close>

record env =
  now :: nat
  get_error :: "string option"
  set_error :: "string option"
  del_error :: "string option"
  ping_reply :: "string + string"
  store_error :: "string option"
  new_id :: string
  uptime :: json
  memoryUsage :: json

record response =
  status :: nat
  body :: json

text \<open>
  A handler sends a response, or its promise rejects with a message before any response
  is sent.
\<close>

datatype outcome = Sent response | Uncaught string

definition issue :: "call \<Rightarrow> world \<Rightarrow> world" where
  "issue c w = w\<lparr>calls := calls w @ [c]\<rparr>"

definition console_error :: "string \<Rightarrow> string \<Rightarrow> world \<Rightarrow> world" where
  "console_error label m w = w\<lparr>console := console w @ [(label, m)]\<rparr>"

definition live :: "env \<Rightarrow> world \<Rightarrow> string \<Rightarrow> cached option" where
  "live E w k =
     (case cache w k of
        None \<Rightarrow> None
      | Some (v, expires) \<Rightarrow> if now E < expires then Some v else None)"

definition redis_get :: "env \<Rightarrow> string \<Rightarrow> world \<Rightarrow> (string + cached option) \<times> world" where
  "redis_get E k w =
     (case get_error E of
        Some m \<Rightarrow> (Inl m, issue (RedisGet k) w)
      | None \<Rightarrow> (Inr (live E w k), issue (RedisGet k) w))"

text \<open>\<open>redis.set(k, v, "EX", ttl)\<close>\<close>

definition redis_set :: "env \<Rightarrow> string \<Rightarrow> cached \<Rightarrow> nat \<Rightarrow> world \<Rightarrow> (string + unit) \<times> world" where
  "redis_set E k v ttl w =
     (case set_error E of
        Some m \<Rightarrow> (Inl m, issue (RedisSet k v ttl) w)
      | None \<Rightarrow>
          (Inr (), issue (RedisSet k v ttl) (w\<lparr>cache := (cache w)(k \<mapsto> (v, now E + ttl))\<rparr>)))"

text \<open>\<open>DEL k\<close> removes the key named \<open>k\<close>; the command takes names, not patterns.\<close>

definition redis_del :: "env \<Rightarrow> string \<Rightarrow> world \<Rightarrow> (string + unit) \<times> world" where
  "redis_del E k w =
     (case del_error E of
        Some m \<Rightarrow> (Inl m, issue (RedisDel k) w)
      | None \<Rightarrow> (Inr (), issue (RedisDel k) (w\<lparr>cache := (cache w)(k := None)\<rparr>)))"

text \<open>What the store answers to an aggregation: its own failure, or the run of the pipeline.\<close>

definition store_answer :: "deps \<Rightarrow> env \<Rightarrow> pipeline \<Rightarrow> recipe list \<Rightarrow> string + facets list" where
  "store_answer D E p ds =
     (case store_error E of
        Some m \<Rightarrow> Inl m
      | None \<Rightarrow> run_pipeline D p ds)"

definition aggregate :: "deps \<Rightarrow> env \<Rightarrow> pipeline \<Rightarrow> world \<Rightarrow> (string + facets list) \<times> world" where
  "aggregate D E p w = (store_answer D E p (docs w), issue (Aggregate p) w)"

subsection \<open>Documents by identifier\<close>

fun replace_first :: "string \<Rightarrow> recipe \<Rightarrow> recipe list \<Rightarrow> recipe list" where
  "replace_first i r' [] = []"
| "replace_first i r' (r # rs) = (if rid r = i then r' # rs else r # replace_first i r' rs)"

fun remove_first :: "string \<Rightarrow> recipe list \<Rightarrow> recipe list" where
  "remove_first i [] = []"
| "remove_first i (r # rs) = (if rid r = i then rs else r # remove_first i rs)"

definition or_else :: "'a option \<Rightarrow> 'a option \<Rightarrow> 'a option" where
  "or_else new old = (case new of None \<Rightarrow> old | Some x \<Rightarrow> Some x)"

text \<open>An update sets the fields the body gives and leaves the others.\<close>

definition overlay :: "fields \<Rightarrow> fields \<Rightarrow> fields" where
  "overlay b c =
     \<lparr> title = or_else (title b) (title c),
       ingredients = or_else (ingredients b) (ingredients c),
       utensils = or_else (utensils b) (utensils c),
       difficulty = or_else (difficulty b) (difficulty c),
       total_time = or_else (total_time b) (total_time c),
       instructions = or_else (instructions b) (instructions c) \<rparr>"

text \<open>\<open>newRecipe.save()\<close>: validation comes first, then the insertion.\<close>

definition save :: "deps \<Rightarrow> env \<Rightarrow> recipe \<Rightarrow> world \<Rightarrow> (string + unit) \<times> world" where
  "save D E r w =
     (case validate D (content r) of
        Some m \<Rightarrow> (Inl m, w)
      | None \<Rightarrow>
          (case store_error E of
             Some m \<Rightarrow> (Inl m, issue (Save r) w)
           | None \<Rightarrow> (Inr (), issue (Save r) (w\<lparr>docs := docs w @ [r]\<rparr>))))"

definition findById :: "deps \<Rightarrow> env \<Rightarrow> string \<Rightarrow> world \<Rightarrow> (string + recipe option) \<times> world" where
  "findById D E i w =
     (case cast_error D i of
        Some m \<Rightarrow> (Inl m, w)
      | None \<Rightarrow>
          (case store_error E of
             Some m \<Rightarrow> (Inl m, issue (FindById i) w)
           | None \<Rightarrow> (Inr (find (\<lambda>r. rid r = i) (docs w)), issue (FindById i) w)))"

text \<open>\<open>Recipe.findByIdAndUpdate(id, body, { new: true })\<close> returns the updated document.\<close>

definition findByIdAndUpdate ::
  "deps \<Rightarrow> env \<Rightarrow> string \<Rightarrow> fields \<Rightarrow> world \<Rightarrow> (string + recipe option) \<times> world" where
  "findByIdAndUpdate D E i b w =
     (case cast_error D i of
        Some m \<Rightarrow> (Inl m, w)
      | None \<Rightarrow>
          (case store_error E of
             Some m \<Rightarrow> (Inl m, issue (FindByIdAndUpdate i b) w)
           | None \<Rightarrow>
               (case find (\<lambda>r. rid r = i) (docs w) of
                  None \<Rightarrow> (Inr None, issue (FindByIdAndUpdate i b) w)
                | Some r \<Rightarrow>
                    (let r' = r\<lparr>content := overlay b (content r)\<rparr> in
                     (Inr (Some r'),
                      issue (FindByIdAndUpdate i b)
                        (w\<lparr>docs := replace_first i r' (docs w)\<rparr>))))))"

definition findByIdAndDelete ::
  "deps \<Rightarrow> env \<Rightarrow> string \<Rightarrow> world \<Rightarrow> (string + recipe option) \<times> world" where
  "findByIdAndDelete D E i w =
     (case cast_error D i of
        Some m \<Rightarrow> (Inl m, w)
      | None \<Rightarrow>
          (case store_error E of
             Some m \<Rightarrow> (Inl m, issue (FindByIdAndDelete i) w)
           | None \<Rightarrow>
               (case find (\<lambda>r. rid r = i) (docs w) of
                  None \<Rightarrow> (Inr None, issue (FindByIdAndDelete i) w)
                | Some r \<Rightarrow>
                    (Inr (Some r),
                     issue (FindByIdAndDelete i) (w\<lparr>docs := remove_first i (docs w)\<rparr>)))))"

definition redis_ping :: "env \<Rightarrow> world \<Rightarrow> (string + string) \<times> world" where
  "redis_ping E w = (ping_reply E, issue RedisPing w)"

section \<open>The handlers\<close>

subsection \<open>Bodies\<close>

definition opt_field :: "string \<Rightarrow> ('a \<Rightarrow> json) \<Rightarrow> 'a option \<Rightarrow> (string \<times> json) list" where
  "opt_field k f v = (case v of None \<Rightarrow> [] | Some x \<Rightarrow> [(k, f x)])"

definition ingredient_json :: "ingredient \<Rightarrow> json" where
  "ingredient_json i = JObj [(''name'', JStr (name i))]"

definition strings_json :: "string list \<Rightarrow> json" where
  "strings_json xs = JArr (map JStr xs)"

definition recipe_json :: "recipe \<Rightarrow> json" where
  "recipe_json r =
     JObj ((''_id'', JStr (rid r)) #
       opt_field ''title'' JStr (title (content r)) @
       opt_field ''ingredients'' (\<lambda>xs. JArr (map ingredient_json xs)) (ingredients (content r)) @
       opt_field ''utensils'' strings_json (utensils (content r)) @
       opt_field ''difficulty'' JStr (difficulty (content r)) @
       opt_field ''total time'' JStr (total_time (content r)) @
       opt_field ''instructions'' strings_json (instructions (content r)))"

definition send :: "nat \<Rightarrow> json \<Rightarrow> outcome" where
  "send code b = Sent \<lparr> status = code, body = b \<rparr>"

text \<open>\<open>{ error: e, details: (error as any).message }\<close>\<close>

definition error_details :: "string \<Rightarrow> string \<Rightarrow> json" where
  "error_details e m = JObj [(''error'', JStr e), (''details'', JStr m)]"

text \<open>\<open>{ error: e }\<close>\<close>

definition error_only :: "string \<Rightarrow> json" where
  "error_only e = JObj [(''error'', JStr e)]"

subsection \<open>clearRecipeCache\<close>

definition clearRecipeCache :: "env \<Rightarrow> world \<Rightarrow> world" where
  "clearRecipeCache E w =
     (case redis_del E ''recipes:*'' w of
        (Inl m, w') \<Rightarrow> console_error ''Redis cache clear error:'' m w'
      | (Inr u, w') \<Rightarrow> w')"

subsection \<open>GET /health\<close>

definition health_status :: "bool \<Rightarrow> json" where
  "health_status ok = JStr (if ok then ''Healthy'' else ''Unhealthy'')"

definition health :: "env \<Rightarrow> world \<Rightarrow> outcome \<times> world" where
  "health E w =
     (let mongoStatus = health_status (ready w) in
      case redis_ping E w of
        (Inl m, w') \<Rightarrow> (send 500 (error_details ''Health check failed'' m), w')
      | (Inr redisPing, w') \<Rightarrow>
          (send 200
             (JObj [(''mongoStatus'', mongoStatus),
                    (''redisStatus'', health_status (redisPing = ''PONG'')),
                    (''uptime'', uptime E),
                    (''memoryUsage'', memoryUsage E)]),
           w'))"

subsection \<open>POST /recipes\<close>

definition create_recipe :: "deps \<Rightarrow> env \<Rightarrow> fields \<Rightarrow> world \<Rightarrow> outcome \<times> world" where
  "create_recipe D E b w =
     (let newRecipe = \<lparr> rid = new_id E, content = b \<rparr> in
      case save D E newRecipe w of
        (Inl m, w') \<Rightarrow>
          (send 400 (error_details ''Failed to create recipe'' m),
           console_error ''Error creating recipe:'' m w')
      | (Inr u, w') \<Rightarrow> (send 201 (recipe_json newRecipe), clearRecipeCache E w'))"

subsection \<open>GET /recipes\<close>

text \<open>
  The filter of lines 94 to 100. The object literal is evaluated in order: the regular
  expression of the difficulty first (when the difficulty is not empty), then the two of
  the search. A pattern that does not compile throws there, outside the \<open>try\<close> block.
\<close>

definition new_RegExp :: "deps \<Rightarrow> string \<Rightarrow> string \<Rightarrow> string + regex" where
  "new_RegExp D p fl =
     (case RegExp_error D p of
        Some m \<Rightarrow> Inl m
      | None \<Rightarrow> Inr \<lparr> source = p, flags = fl \<rparr>)"

definition build_query :: "deps \<Rightarrow> string \<Rightarrow> string \<Rightarrow> string + filter" where
  "build_query D search diff =
     (case (if diff \<noteq> [] then
              (case new_RegExp D diff ''i'' of
                 Inl m \<Rightarrow> Inl m
               | Inr rx \<Rightarrow> Inr [Field (Regex ''difficulty'' rx)])
            else Inr []) of
        Inl m \<Rightarrow> Inl m
      | Inr spread \<Rightarrow>
          (case new_RegExp D search ''i'' of
             Inl m \<Rightarrow> Inl m
           | Inr rx1 \<Rightarrow>
               (case new_RegExp D search ''i'' of
                  Inl m \<Rightarrow> Inl m
                | Inr rx2 \<Rightarrow>
                    Inr (spread @ [Or [Regex ''title'' rx1, Regex ''ingredients.name'' rx2]]))))"

text \<open>The pipeline of lines 114 to 138.\<close>

definition list_pipeline :: "deps \<Rightarrow> query \<Rightarrow> filter \<Rightarrow> pipeline" where
  "list_pipeline D q f =
     \<lparr> p_match = f,
       p_recipes =
         [Sort ''title'' 1,
          Skip (js_mul (js_sub (page_number D (page_of q)) (Fin 1)) (pageSize_of D q)),
          Limit (pageSize_of D q),
          Project [''title'', ''ingredients'', ''utensils'', ''difficulty'', ''total time'',
                   ''instructions'']],
       p_totalCount = ''count'' \<rparr>"

text \<open>\<open>results[0]?.recipes || []\<close>\<close>

definition recipes_of :: "facets list \<Rightarrow> recipe list" where
  "recipes_of results = (case results of [] \<Rightarrow> [] | r # rest \<Rightarrow> out_recipes r)"

text \<open>\<open>results[0]?.totalCount[0]?.count || 0\<close>\<close>

definition totalRecipes_of :: "facets list \<Rightarrow> jsnum" where
  "totalRecipes_of results =
     (case results of
        [] \<Rightarrow> Fin 0
      | r # rest \<Rightarrow>
          (case out_totalCount r of
             [] \<Rightarrow> Fin 0
           | (k, n) # others \<Rightarrow> if k = ''count'' then js_or (Fin (of_nat n)) (Fin 0) else Fin 0))"

definition totalPages_of :: "jsnum \<Rightarrow> jsnum \<Rightarrow> jsnum" where
  "totalPages_of totalRecipes pageSize = Math_ceil (js_div totalRecipes pageSize)"

text \<open>\<open>{ recipes, totalRecipes, totalPages, currentPage: page }\<close>\<close>

definition page_result :: "recipe list \<Rightarrow> jsnum \<Rightarrow> jsnum \<Rightarrow> page_value \<Rightarrow> json" where
  "page_result recipes totalRecipes totalPages page =
     JObj [(''recipes'', JArr (map recipe_json recipes)),
           (''totalRecipes'', num_json totalRecipes),
           (''totalPages'', num_json totalPages),
           (''currentPage'', page_json page)]"

definition cacheValue_of :: "deps \<Rightarrow> query \<Rightarrow> facets list \<Rightarrow> json" where
  "cacheValue_of D q results =
     page_result (recipes_of results) (totalRecipes_of results)
       (totalPages_of (totalRecipes_of results) (pageSize_of D q)) (page_of q)"

text \<open>The inner \<open>try\<close> of lines 104 to 111: a hit gives the parsed value.\<close>

definition cache_check :: "env \<Rightarrow> string \<Rightarrow> world \<Rightarrow> json option \<times> world" where
  "cache_check E k w =
     (case redis_get E k w of
        (Inl m, w') \<Rightarrow> (None, console_error ''Redis fetch error:'' m w')
      | (Inr None, w') \<Rightarrow> (None, w')
      | (Inr (Some cachedData), w') \<Rightarrow>
          (if truthy_text cachedData then
             (case JSON_parse cachedData of
                Inl m \<Rightarrow> (None, console_error ''Redis fetch error:'' m w')
              | Inr v \<Rightarrow> (Some v, w'))
           else (None, w')))"

text \<open>The inner \<open>try\<close> of lines 145 to 149.\<close>

definition cache_fill :: "env \<Rightarrow> string \<Rightarrow> json \<Rightarrow> world \<Rightarrow> world" where
  "cache_fill E k v w =
     (case redis_set E k (JSON_stringify v) 3600 w of
        (Inl m, w') \<Rightarrow> console_error ''Redis set error:'' m w'
      | (Inr u, w') \<Rightarrow> w')"

text \<open>Lines 113 to 158: the store is queried, the result shaped, cached and sent.\<close>

definition fetch_from_store :: "deps \<Rightarrow> env \<Rightarrow> query \<Rightarrow> filter \<Rightarrow> world \<Rightarrow> outcome \<times> world" where
  "fetch_from_store D E q f w =
     (case aggregate D E (list_pipeline D q f) w of
        (Inl m, w') \<Rightarrow>
          (send 500 (error_details ''Failed to fetch recipes'' m),
           console_error ''Error fetching recipes:'' m w')
      | (Inr results, w') \<Rightarrow>
          (let cacheValue = cacheValue_of D q results in
           (send 200 cacheValue, cache_fill E (cacheKey D q) cacheValue w')))"

definition list_recipes :: "deps \<Rightarrow> env \<Rightarrow> query \<Rightarrow> world \<Rightarrow> outcome \<times> world" where
  "list_recipes D E q w =
     (case build_query D (search_of q) (difficulty_of q) of
        Inl m \<Rightarrow> (Uncaught m, w)
      | Inr f \<Rightarrow>
          (case cache_check E (cacheKey D q) w of
             (Some v, w') \<Rightarrow> (send 200 v, w')
           | (None, w') \<Rightarrow> fetch_from_store D E q f w'))"

subsection \<open>GET /recipes/:id\<close>

definition get_recipe :: "deps \<Rightarrow> env \<Rightarrow> string \<Rightarrow> world \<Rightarrow> outcome \<times> world" where
  "get_recipe D E i w =
     (if \<not> ObjectId_isValid D i then (send 400 (error_only ''Invalid recipe ID format''), w)
      else
        (case findById D E i w of
           (Inl m, w') \<Rightarrow>
             (send 500 (error_details ''Failed to fetch recipe'' m),
              console_error ''Error fetching recipe by ID:'' m w')
         | (Inr None, w') \<Rightarrow> (send 404 (error_only ''Recipe not found''), w')
         | (Inr (Some r), w') \<Rightarrow> (send 200 (recipe_json r), w')))"

subsection \<open>PUT /recipes/:id\<close>

definition update_recipe :: "deps \<Rightarrow> env \<Rightarrow> string \<Rightarrow> fields \<Rightarrow> world \<Rightarrow> outcome \<times> world" where
  "update_recipe D E i b w =
     (case findByIdAndUpdate D E i b w of
        (Inl m, w') \<Rightarrow>
          (send 400 (error_details ''Failed to update recipe'' m),
           console_error ''Error updating recipe:'' m w')
      | (Inr None, w') \<Rightarrow> (send 404 (error_only ''Recipe not found''), w')
      | (Inr (Some updatedRecipe), w') \<Rightarrow>
          (send 200 (recipe_json updatedRecipe), clearRecipeCache E w'))"

subsection \<open>DELETE /recipes/:id\<close>

definition delete_recipe :: "deps \<Rightarrow> env \<Rightarrow> string \<Rightarrow> world \<Rightarrow> outcome \<times> world" where
  "delete_recipe D E i w =
     (case findByIdAndDelete D E i w of
        (Inl m, w') \<Rightarrow>
          (send 500 (error_details ''Failed to delete recipe'' m),
           console_error ''Error deleting recipe:'' m w')
      | (Inr None, w') \<Rightarrow> (send 404 (error_only ''Recipe not found''), w')
      | (Inr (Some deletedRecipe), w') \<Rightarrow>
          (send 200 (JObj [(''message'', JStr ''Recipe deleted successfully'')]),
           clearRecipeCache E w'))"

section \<open>The routes\<close>

text \<open>
  A request as a route handler receives it: the route that matched, with the parameter of
  the path, the query and the parsed body.
\<close>

datatype request =
    GetHealth
  | PostRecipes fields
  | GetRecipes query
  | GetRecipe string
  | PutRecipe string fields
  | DeleteRecipe string

fun serve :: "deps \<Rightarrow> env \<Rightarrow> request \<Rightarrow> world \<Rightarrow> outcome \<times> world" where
  "serve D E GetHealth w = health E w"
| "serve D E (PostRecipes b) w = create_recipe D E b w"
| "serve D E (GetRecipes q) w = list_recipes D E q w"
| "serve D E (GetRecipe i) w = get_recipe D E i w"
| "serve D E (PutRecipe i b) w = update_recipe D E i b w"
| "serve D E (DeleteRecipe i) w = delete_recipe D E i w"

section \<open>The application\<close>







text \<open>A property of a JSON object, as a reader of the body finds it.\<close>

fun property :: "json \<Rightarrow> string \<Rightarrow> json option" where
  "property (JObj kvs) k = map_of kvs k"
| "property v k = None"

section \<open>An instance of the dependencies\<close>

text \<open>
  For evaluation on concrete requests: the built-ins on the fragment where they are plain.
  \<^item> \<open>Number\<close> on text in ASCII: white space around the literal is dropped; the empty text
    is zero; a decimal literal has an optional sign, digits with an optional fraction,
    and an optional exponent; a literal of radix 16, 8 or 2 has the prefix \<open>0x\<close>, \<open>0o\<close> or
    \<open>0b\<close> and no sign; \<open>Infinity\<close> has an optional sign; any other text is NaN. The
    value of a literal is rounded to the nearest double.
  \<^item> The text of an integer below \<open>10^21\<close>, of NaN and of the infinities; other numbers are
    outside the fragment.
  \<^item> Patterns made of letters, digits, spaces, \<open>&\<close> and \<open>=\<close>: they compile, and with the
    flag \<open>i\<close> they search for themselves, ignoring case. Other patterns are outside the
    fragment.
  \<^item> A schema that validates every body, and identifiers of 24 hexadecimal digits.
\<close>

definition lower :: "char \<Rightarrow> char" where
  "lower c =
     (if CHR ''A'' \<le> c \<and> c \<le> CHR ''Z'' then char_of (of_char c + (32::nat)) else c)"

text \<open>The value of a digit in a radix up to 16, and of a row of digits.\<close>

definition digit_of :: "nat \<Rightarrow> char \<Rightarrow> nat option" where
  "digit_of radix c =
     (case map_of (zip ''0123456789abcdef'' [0 ..< 16]) (lower c) of
        None \<Rightarrow> None
      | Some d \<Rightarrow> if d < radix then Some d else None)"

fun digits_value :: "nat \<Rightarrow> int \<Rightarrow> string \<Rightarrow> int option" where
  "digits_value radix acc [] = Some acc"
| "digits_value radix acc (c # cs) =
     (case digit_of radix c of
        None \<Rightarrow> None
      | Some d \<Rightarrow> digits_value radix (int radix * acc + int d) cs)"

definition unsigned_literal :: "nat \<Rightarrow> string \<Rightarrow> int option" where
  "unsigned_literal radix s = (if s = [] then None else digits_value radix 0 s)"

text \<open>The text before the first character that satisfies \<open>P\<close>, and the text after it.\<close>

definition split_where :: "(char \<Rightarrow> bool) \<Rightarrow> string \<Rightarrow> string \<times> string option" where
  "split_where P s =
     (case dropWhile (\<lambda>c. \<not> P c) s of
        [] \<Rightarrow> (s, None)
      | c # rest \<Rightarrow> (takeWhile (\<lambda>c. \<not> P c) s, Some rest))"

definition signed :: "string \<Rightarrow> bool \<times> string" where
  "signed s =
     (case s of
        [] \<Rightarrow> (False, [])
      | c # cs \<Rightarrow>
          if c = CHR ''-'' then (True, cs) else if c = CHR ''+'' then (False, cs) else (False, s))"

text \<open>Digits with an optional fraction; one of the two parts may be empty, not both.\<close>

definition mantissa :: "string \<Rightarrow> rat option" where
  "mantissa s =
     (case split_where (\<lambda>c. c = CHR ''.'') s of
        (i, None) \<Rightarrow> map_option of_int (unsigned_literal 10 i)
      | (i, Some f) \<Rightarrow>
          (if i = [] \<and> f = [] then None
           else
             (case (digits_value 10 0 i, digits_value 10 0 f) of
                (Some a, Some b) \<Rightarrow> Some (of_int a + of_int b / 10 ^ length f)
              | _ \<Rightarrow> None)))"

definition exponent :: "string \<Rightarrow> int option" where
  "exponent s =
     (case signed s of
        (neg, ds) \<Rightarrow> map_option (\<lambda>n. if neg then - n else n) (unsigned_literal 10 ds))"

definition unsigned_decimal :: "string \<Rightarrow> rat option" where
  "unsigned_decimal s =
     (case split_where (\<lambda>c. c = CHR ''e'' \<or> c = CHR ''E'') s of
        (m, None) \<Rightarrow> mantissa m
      | (m, Some x) \<Rightarrow>
          (case (mantissa m, exponent x) of
             (Some a, Some k) \<Rightarrow> Some (a * 10 powi k)
           | _ \<Rightarrow> None))"

definition decimal_literal :: "string \<Rightarrow> jsnum" where
  "decimal_literal s =
     (case signed s of
        (neg, t) \<Rightarrow>
          (if t = ''Infinity'' then inf_of_sign neg
           else
             (case unsigned_decimal t of
                None \<Rightarrow> NaN
              | Some a \<Rightarrow> to_double (if neg then - a else a))))"

definition radix_of :: "char \<Rightarrow> nat option" where
  "radix_of c = map_of [(CHR ''x'', 16), (CHR ''o'', 8), (CHR ''b'', 2)] (lower c)"

definition is_space :: "char \<Rightarrow> bool" where
  "is_space c = (of_char c \<in> {9, 10, 11, 12, 13, 32 :: nat})"

definition trim :: "string \<Rightarrow> string" where
  "trim s = rev (dropWhile is_space (rev (dropWhile is_space s)))"

definition numeric_literal :: "string \<Rightarrow> jsnum" where
  "numeric_literal s =
     (case trim s of
        [] \<Rightarrow> Fin 0
      | [c] \<Rightarrow> decimal_literal [c]
      | c # d # ds \<Rightarrow>
          (case (if c = CHR ''0'' then radix_of d else None) of
             None \<Rightarrow> decimal_literal (c # d # ds)
           | Some radix \<Rightarrow>
               (case unsigned_literal radix ds of
                  None \<Rightarrow> NaN
                | Some n \<Rightarrow> to_double (of_int n))))"

definition digit_char :: "nat \<Rightarrow> char" where
  "digit_char d = ''0123456789'' ! (d mod 10)"

fun nat_text :: "nat \<Rightarrow> string" where
  "nat_text n = (if n < 10 then [digit_char n] else nat_text (n div 10) @ [digit_char (n mod 10)])"

declare nat_text.simps [simp del]

definition number_text :: "jsnum \<Rightarrow> string" where
  "number_text x =
     (case x of
        NaN \<Rightarrow> ''NaN''
      | PosInf \<Rightarrow> ''Infinity''
      | NegInf \<Rightarrow> ''-Infinity''
      | Fin q \<Rightarrow>
          (if \<not> is_integer q then []
           else if q < 0 then CHR ''-'' # nat_text (nat (- \<lfloor>q\<rfloor>))
           else nat_text (nat \<lfloor>q\<rfloor>)))"

fun starts_with :: "string \<Rightarrow> string \<Rightarrow> bool" where
  "starts_with [] s = True"
| "starts_with (p # ps) [] = False"
| "starts_with (p # ps) (c # cs) = (p = c \<and> starts_with ps cs)"

fun occurs_in :: "string \<Rightarrow> string \<Rightarrow> bool" where
  "occurs_in p [] = (p = [])"
| "occurs_in p (c # cs) = (starts_with p (c # cs) \<or> occurs_in p cs)"

definition literal_search :: "regex \<Rightarrow> string \<Rightarrow> bool" where
  "literal_search rx s =
     (if CHR ''i'' \<in> set (flags rx) then occurs_in (map lower (source rx)) (map lower s)
      else occurs_in (source rx) s)"

definition is_hex :: "char \<Rightarrow> bool" where
  "is_hex c =
     ((CHR ''0'' \<le> c \<and> c \<le> CHR ''9'') \<or> (CHR ''a'' \<le> c \<and> c \<le> CHR ''f'') \<or>
      (CHR ''A'' \<le> c \<and> c \<le> CHR ''F''))"

definition hex24 :: "string \<Rightarrow> bool" where
  "hex24 i = (length i = 24 \<and> list_all is_hex i)"

definition plain :: deps where
  "plain =
     \<lparr> StringToNumber = numeric_literal,
       NumberToString = number_text,
       RegExp_error = (\<lambda>p. None),
       regex_match = literal_search,
       validate = (\<lambda>f. None),
       ObjectId_isValid = hex24,
       cast_error = (\<lambda>i. if hex24 i then None else Some ''Cast to ObjectId failed'') \<rparr>"

subsection \<open>A small kitchen\<close>

text \<open>A request without parameters, a collection of one recipe and a quiet environment.\<close>

definition bare :: query where
  "bare = \<lparr> q_page = None, q_pageSize = None, q_search = None, q_difficulty = None \<rparr>"

definition soup :: recipe where
  "soup =
     \<lparr> rid = ''65f0c0ffee65f0c0ffee0001'',
       content = \<lparr> title = Some ''Soup'', ingredients = Some [\<lparr> name = ''Leek'' \<rparr>],
                   utensils = None, difficulty = Some ''easy'', total_time = None,
                   instructions = None \<rparr> \<rparr>"

definition stew :: fields where
  "stew =
     \<lparr> title = Some ''Stew'', ingredients = None, utensils = None,
       difficulty = Some ''hard'', total_time = None, instructions = None \<rparr>"

definition kitchen :: world where
  "kitchen = \<lparr> cache = Map.empty, docs = [soup], ready = True, console = [], calls = [] \<rparr>"

definition quiet :: env where
  "quiet =
     \<lparr> now = 0, get_error = None, set_error = None, del_error = None,
       ping_reply = Inr ''PONG'', store_error = None,
       new_id = ''65f0c0ffee65f0c0ffee0002'', uptime = JNum 1, memoryUsage = JNull \<rparr>"

text \<open>The page the kitchen gives to the bare request.\<close>

definition soup_page :: json where
  "soup_page =
     JObj [(''recipes'',
            JArr [JObj [(''_id'', JStr ''65f0c0ffee65f0c0ffee0001''),
                        (''title'', JStr ''Soup''),
                        (''ingredients'', JArr [JObj [(''name'', JStr ''Leek'')]]),
                        (''difficulty'', JStr ''easy'')]]),
           (''totalRecipes'', JNum 1),
           (''totalPages'', JNum 1),
           (''currentPage'', JNum 1)]"

text \<open>The page the kitchen gives to the request with \<open>page=1\<close>.\<close>

definition soup_first :: json where
  "soup_first =
     JObj [(''recipes'',
            JArr [JObj [(''_id'', JStr ''65f0c0ffee65f0c0ffee0001''),
                        (''title'', JStr ''Soup''),
                        (''ingredients'', JArr [JObj [(''name'', JStr ''Leek'')]]),
                        (''difficulty'', JStr ''easy'')]]),
           (''totalRecipes'', JNum 1),
           (''totalPages'', JNum 1),
           (''currentPage'', JStr ''1'')]"

text \<open>
  The kitchen after the bare list request has been served, and then after the stew has
  been created.
\<close>

definition served :: world where
  "served = snd (list_recipes plain quiet bare kitchen)"

definition extended :: world where
  "extended = snd (create_recipe plain quiet stew served)"

subsection \<open>A pantry\<close>

text \<open>
  A collection of six recipes, and the request for the second page of two of the easy
  recipes that have \<open>sa\<close> in the title or in the name of an ingredient.
\<close>

definition dish :: "string \<Rightarrow> string \<Rightarrow> string list \<Rightarrow> string \<Rightarrow> recipe" where
  "dish i t ns d =
     \<lparr> rid = i,
       content = \<lparr> title = Some t, ingredients = Some (map (\<lambda>n. \<lparr> name = n \<rparr>) ns),
                   utensils = None, difficulty = Some d, total_time = None,
                   instructions = None \<rparr> \<rparr>"

definition toast :: recipe where
  "toast = dish ''65f0c0ffee65f0c0ffee0011'' ''Toast'' [''Bread'', ''Salt''] ''easy''"

definition sashimi :: recipe where
  "sashimi = dish ''65f0c0ffee65f0c0ffee0012'' ''Sashimi'' [''Tuna''] ''hard''"

definition samosa :: recipe where
  "samosa = dish ''65f0c0ffee65f0c0ffee0013'' ''Samosa'' [''Potato''] ''easy''"

definition salad :: recipe where
  "salad = dish ''65f0c0ffee65f0c0ffee0014'' ''Salad'' [''Lettuce''] ''Easy''"

definition pasta :: recipe where
  "pasta = dish ''65f0c0ffee65f0c0ffee0015'' ''Pasta'' [''Sauce''] ''EASY''"

definition pantry :: world where
  "pantry =
     \<lparr> cache = Map.empty, docs = [soup, toast, sashimi, samosa, salad, pasta], ready = True,
       console = [], calls = [] \<rparr>"

definition second_page :: query where
  "second_page =
     \<lparr> q_page = Some (QStr ''2''), q_pageSize = Some (QStr ''2''),
       q_search = Some (QStr ''sa''), q_difficulty = Some (QStr ''EASY'') \<rparr>"

text \<open>The filter and the pipeline of that request.\<close>

definition easy_sa :: filter where
  "easy_sa =
     [Field (Regex ''difficulty'' \<lparr>source = ''EASY'', flags = ''i''\<rparr>),
      Or [Regex ''title'' \<lparr>source = ''sa'', flags = ''i''\<rparr>,
          Regex ''ingredients.name'' \<lparr>source = ''sa'', flags = ''i''\<rparr>]]"

definition easy_sa_pipeline :: pipeline where
  "easy_sa_pipeline =
     \<lparr> p_match = easy_sa,
       p_recipes =
         [Sort ''title'' 1, Skip (Fin 2), Limit (Fin 2),
          Project [''title'', ''ingredients'', ''utensils'', ''difficulty'', ''total time'',
                   ''instructions'']],
       p_totalCount = ''count'' \<rparr>"

text \<open>The page the pantry gives to that request.\<close>

definition samosa_page :: json where
  "samosa_page =
     JObj [(''recipes'', JArr [recipe_json samosa, recipe_json toast]),
           (''totalRecipes'', JNum 4),
           (''totalPages'', JNum 2),
           (''currentPage'', JStr ''2'')]"

subsection \<open>Two requests with one key\<close>

text \<open>
  A collection of two recipes whose titles contain the text \<open>&pageSize=1&search=\<close>; a
  request for pages of two recipes that searches for that text; and a request for pages
  of one recipe whose \<open>page\<close> parameter is \<open>1&pageSize=2&search=\<close>.
\<close>

definition larder :: world where
  "larder =
     \<lparr> cache = Map.empty,
       docs = [dish ''65f0c0ffee65f0c0ffee0021'' ''Fish &pageSize=1&search= chips'' [] ''easy'',
               dish ''65f0c0ffee65f0c0ffee0022'' ''Bread &pageSize=1&search= butter'' [] ''easy''],
       ready = True, console = [], calls = [] \<rparr>"

definition wide :: query where
  "wide =
     \<lparr> q_page = Some (QStr ''1''), q_pageSize = Some (QStr ''2''),
       q_search = Some (QStr ''&pageSize=1&search=''), q_difficulty = None \<rparr>"

definition narrow :: query where
  "narrow =
     \<lparr> q_page = Some (QStr ''1&pageSize=2&search=''), q_pageSize = Some (QStr ''1''),
       q_search = None, q_difficulty = None \<rparr>"

definition wide_page :: json where
  "wide_page =
     JObj [(''recipes'',
            JArr [recipe_json
                    (dish ''65f0c0ffee65f0c0ffee0022'' ''Bread &pageSize=1&search= butter'' []
                       ''easy''),
                  recipe_json
                    (dish ''65f0c0ffee65f0c0ffee0021'' ''Fish &pageSize=1&search= chips'' []
                       ''easy'')]),
           (''totalRecipes'', JNum 2),
           (''totalPages'', JNum 1),
           (''currentPage'', JStr ''1'')]"

section \<open>Rounding to a double\<close>

lemma bitlen_pow:
  assumes n: "0 < n"
  shows "(2::rat) powi (bitlen n - 1) \<le> of_int n \<and> of_int n < (2::rat) powi bitlen n"
proof -
  from bitlen_bounds [OF n] have lo: "2 ^ nat (bitlen n - 1) \<le> n" and hi: "n < 2 ^ nat (bitlen n)"
    by simp_all
  have b: "0 < bitlen n"
  proof (rule ccontr)
    assume "\<not> 0 < bitlen n"
    then have "nat (bitlen n) = 0" by simp
    then show False using hi n by simp
  qed
  have "(2::rat) powi (bitlen n - 1) = 2 ^ nat (bitlen n - 1)"
    using b by (simp add: power_int_def)
  also have "\<dots> = of_int (2 ^ nat (bitlen n - 1))" by simp
  also have "\<dots> \<le> of_int n" using lo by (simp only: of_int_le_iff)
  finally have 1: "(2::rat) powi (bitlen n - 1) \<le> of_int n" .
  have "(of_int n :: rat) < of_int (2 ^ nat (bitlen n))" using hi by (simp only: of_int_less_iff)
  also have "\<dots> = 2 ^ nat (bitlen n)" by simp
  also have "\<dots> = (2::rat) powi bitlen n" using b by (simp add: power_int_def)
  finally show ?thesis using 1 by simp
qed

lemma ilog2_bounds:
  assumes "0 < x"
  shows "2 powi ilog2 x \<le> x \<and> x < 2 powi (ilog2 x + 1)"
proof -
  obtain p q where pq: "quotient_of x = (p, q)" by (cases "quotient_of x")
  have q: "0 < q" using pq by (rule quotient_of_denom_pos)
  have x: "x = of_int p / of_int q" using pq by (rule quotient_of_div)
  have p: "0 < p" using assms q x by (simp add: zero_less_divide_iff)
  define c where "c = bitlen p - bitlen q"
  note bp = bitlen_pow [OF p] and bq = bitlen_pow [OF q]
  have qr: "(0::rat) < of_int q" using q by simp
  have lo: "2 powi (c - 1) < x"
  proof -
    have "(2::rat) powi (c - 1) * of_int q < 2 powi (c - 1) * 2 powi bitlen q"
      using bq by (intro mult_strict_left_mono) simp_all
    also have "\<dots> = 2 powi (bitlen p - 1)"
      by (simp add: c_def power_int_add [symmetric])
    also have "\<dots> \<le> of_int p" using bp by simp
    finally show ?thesis using qr by (simp add: x pos_less_divide_eq)
  qed
  have hi: "x < 2 powi (c + 1)"
  proof -
    have "of_int p < (2::rat) powi bitlen p" using bp by simp
    also have "\<dots> = 2 powi (c + 1) * 2 powi (bitlen q - 1)"
      by (simp add: c_def power_int_add [symmetric])
    also have "\<dots> \<le> 2 powi (c + 1) * of_int q"
      using bq by (intro mult_left_mono) simp_all
    finally show ?thesis using qr by (simp add: x pos_divide_less_eq)
  qed
  have il: "ilog2 x = (if 2 powi c \<le> x then c else c - 1)"
    by (simp add: ilog2_def pq c_def Let_def)
  show ?thesis
  proof (cases "2 powi c \<le> x")
    case True
    then show ?thesis using hi il by simp
  next
    case False
    then show ?thesis using lo il by simp
  qed
qed

lemma ilog2_le:
  assumes x: "0 < x" and k: "x < 2 powi k"
  shows "ilog2 x < k"
proof -
  have lt: "(2::rat) powi ilog2 x < 2 powi k" using ilog2_bounds [OF x] k by simp
  show ?thesis
  proof (rule ccontr)
    assume "\<not> ilog2 x < k"
    then have "(2::rat) powi k \<le> 2 powi ilog2 x" by (intro power_int_increasing) simp_all
    then show False using lt by simp
  qed
qed

lemma ilog2_ge:
  assumes x: "0 < x" and k: "2 powi k \<le> x"
  shows "k \<le> ilog2 x"
proof -
  have lt: "(2::rat) powi k < 2 powi (ilog2 x + 1)" using ilog2_bounds [OF x] k by simp
  show ?thesis
  proof (rule ccontr)
    assume "\<not> k \<le> ilog2 x"
    then have "(2::rat) powi (ilog2 x + 1) \<le> 2 powi k" by (intro power_int_increasing) simp_all
    then show False using lt by simp
  qed
qed

lemma nearest_even_of_int: "nearest_even (of_int k) = k"
  by (simp add: nearest_even_def)

lemma nearest_even_near: "\<bar>of_int (nearest_even y) - y\<bar> \<le> 1 / 2"
proof -
  have "of_int \<lfloor>y\<rfloor> \<le> y" "y < of_int \<lfloor>y\<rfloor> + 1" by linarith+
  then show ?thesis by (auto simp add: nearest_even_def Let_def)
qed

lemma to_double_finite:
  assumes "x \<noteq> 0" and "e = max (ilog2 \<bar>x\<bar>) (- 1022)" and "e \<le> 1022"
  shows "to_double x =
         Fin (sgn x * (of_int (nearest_even (\<bar>x\<bar> / 2 powi (e - 52))) * 2 powi (e - 52)))"
proof -
  have c: "(1023 < e \<or> (e = 1023 \<and> P)) = False" for P using assms(3) by simp
  show ?thesis
    unfolding to_double_def Let_def assms(2) [symmetric] c by (simp only: assms(1) if_False)
qed

lemma to_double_exact:
  assumes x: "x \<noteq> 0"
    and e: "max (ilog2 \<bar>x\<bar>) (- 1022) \<le> 1022"
    and k: "\<bar>x\<bar> / 2 powi (max (ilog2 \<bar>x\<bar>) (- 1022) - 52) = of_int k"
  shows "to_double x = Fin x"
proof -
  define d where "d = max (ilog2 \<bar>x\<bar>) (- 1022)"
  define u :: rat where "u = 2 powi (d - 52)"
  have u: "0 < u" by (simp add: u_def)
  have d: "d \<le> 1022" using e by (simp only: d_def)
  have ku: "\<bar>x\<bar> / u = of_int k" using k by (simp only: u_def d_def)
  have "of_int k * u = \<bar>x\<bar>" using ku u by (simp add: field_simps)
  then have "sgn x * (of_int k * u) = x" by (simp add: sgn_mult_abs)
  moreover have "to_double x = Fin (sgn x * (of_int (nearest_even (\<bar>x\<bar> / u)) * u))"
    unfolding u_def using x d by (intro to_double_finite) (simp_all add: d_def)
  ultimately show ?thesis by (simp only: ku nearest_even_of_int)
qed

text \<open>An integer of at most 53 bits is a double.\<close>

lemma to_double_of_int:
  assumes "\<bar>n\<bar> < 2 ^ 53"
  shows "to_double (of_int n) = Fin (of_int n)"
proof (cases "n = 0")
  case True
  then show ?thesis by (simp add: to_double_def)
next
  case False
  define x :: rat where "x = of_int n"
  have ax: "\<bar>x\<bar> = of_int \<bar>n\<bar>" by (simp add: x_def)
  have pos: "0 < \<bar>x\<bar>" using False by (simp add: x_def)
  have "1 \<le> \<bar>n\<bar>" using False by simp
  then have "(1::rat) \<le> of_int \<bar>n\<bar>" by (simp only: of_int_1_le_iff)
  then have "(2::rat) powi 0 \<le> \<bar>x\<bar>" by (simp add: ax)
  then have lo: "0 \<le> ilog2 \<bar>x\<bar>" by (rule ilog2_ge [OF pos])
  have "(of_int \<bar>n\<bar> :: rat) < of_int (2 ^ 53)" using assms by (simp only: of_int_less_iff)
  then have "\<bar>x\<bar> < 2 powi 53" by (simp add: ax)
  then have hi: "ilog2 \<bar>x\<bar> < 53" by (rule ilog2_le [OF pos])
  define e where "e = ilog2 \<bar>x\<bar>"
  have me: "max (ilog2 \<bar>x\<bar>) (- 1022) = e" using lo by (simp add: e_def)
  have "\<bar>x\<bar> / 2 powi (e - 52) = \<bar>x\<bar> * 2 powi (52 - e)"
    by (simp add: power_int_diff field_simps)
  also have "\<dots> = of_int \<bar>n\<bar> * 2 ^ nat (52 - e)"
    using hi by (simp add: ax e_def power_int_def)
  also have "\<dots> = of_int (\<bar>n\<bar> * 2 ^ nat (52 - e))" by simp
  finally have "\<bar>x\<bar> / 2 powi (max (ilog2 \<bar>x\<bar>) (- 1022) - 52) = of_int (\<bar>n\<bar> * 2 ^ nat (52 - e))"
    by (simp only: me)
  moreover have "x \<noteq> 0" using False by (simp add: x_def)
  moreover have "max (ilog2 \<bar>x\<bar>) (- 1022) \<le> 1022" using hi me e_def by simp
  ultimately have "to_double x = Fin x" by (intro to_double_exact)
  then show ?thesis by (simp add: x_def)
qed

text \<open>Below \<open>2^47\<close> the doubles are at most \<open>2^(-6)\<close> apart.\<close>

lemma to_double_near:
  assumes x: "0 < x" and b: "x < 2 ^ 47"
  shows "\<exists>r. to_double x = Fin r \<and> \<bar>r - x\<bar> \<le> 1 / 128"
proof -
  define e where "e = max (ilog2 \<bar>x\<bar>) (- 1022)"
  define u :: rat where "u = 2 powi (e - 52)"
  define m where "m = nearest_even (\<bar>x\<bar> / u)"
  have ax: "\<bar>x\<bar> = x" using x by simp
  have "x < 2 powi 47" using b by simp
  then have "ilog2 x < 47" by (rule ilog2_le [OF x])
  then have e: "e \<le> 46" by (simp add: e_def ax)
  have u: "0 < u" by (simp add: u_def)
  have "u \<le> 2 powi (- 6)" unfolding u_def using e by (intro power_int_increasing) simp_all
  moreover have "(2::rat) powi (- 6) = 1 / 64" by (simp add: power_int_def power_divide)
  ultimately have u64: "u \<le> 1 / 64" by simp
  have "to_double x = Fin (sgn x * (of_int m * u))"
    unfolding m_def u_def using x e by (intro to_double_finite) (simp_all add: e_def)
  then have td: "to_double x = Fin (of_int m * u)" using x by simp
  have "\<bar>of_int m - x / u\<bar> \<le> 1 / 2" using nearest_even_near [of "x / u"] by (simp add: m_def ax)
  then have "\<bar>of_int m - x / u\<bar> * u \<le> 1 / 2 * u" using u by (intro mult_right_mono) simp_all
  moreover have "\<bar>of_int m - x / u\<bar> * u = \<bar>of_int m * u - x\<bar>"
  proof -
    have "\<bar>of_int m - x / u\<bar> * u = \<bar>of_int m - x / u\<bar> * \<bar>u\<bar>" using u by simp
    also have "\<dots> = \<bar>(of_int m - x / u) * u\<bar>" by (simp only: abs_mult)
    also have "(of_int m - x / u) * u = of_int m * u - x" using u by (simp add: field_simps)
    finally show ?thesis .
  qed
  ultimately have "\<bar>of_int m * u - x\<bar> \<le> 1 / 2 * u" by simp
  then have "\<bar>of_int m * u - x\<bar> \<le> 1 / 128" using u64 by linarith
  then show ?thesis using td by blast
qed

lemma js_sub_int:
  "\<bar>a - b\<bar> < 2 ^ 53 \<Longrightarrow> js_sub (Fin (of_int a)) (Fin (of_int b)) = Fin (of_int (a - b))"
  using to_double_of_int [of "a - b"] by simp

lemma js_mul_int:
  "\<bar>a * b\<bar> < 2 ^ 53 \<Longrightarrow> js_mul (Fin (of_int a)) (Fin (of_int b)) = Fin (of_int (a * b))"
  using to_double_of_int [of "a * b"] by simp

text \<open>
  \<open>Math.ceil(n / p)\<close> on doubles is the ceiling of the quotient, for a count below \<open>2^47\<close>
  and a page size from 1 to 100: a quotient that is no integer is at least \<open>1/100\<close> away
  from the integers, and the rounding moves it by \<open>1/128\<close> at most.
\<close>

lemma ceil_div_double:
  assumes n: "n < 2 ^ 47" and p: "1 \<le> p" "p \<le> 100"
  shows "Math_ceil (js_div (Fin (of_nat n)) (Fin (of_int p))) =
         Fin (of_int \<lceil>(of_nat n :: rat) / of_int p\<rceil>)"
proof -
  define x :: rat where "x = of_nat n / of_int p"
  have pr: "(0::rat) < of_int p" using p by simp
  have jd: "js_div (Fin (of_nat n)) (Fin (of_int p)) = to_double x"
    using p by (simp add: x_def)
  have x0: "0 \<le> x" using pr by (simp add: x_def)
  have "x \<le> of_nat n" using p by (simp add: x_def pos_divide_le_eq mult_le_cancel_left1)
  also have "(of_nat n :: rat) < of_nat (2 ^ 47)" using n by (simp only: of_nat_less_iff)
  finally have xb: "x < 2 ^ 47" by simp
  show ?thesis
  proof (cases "x = of_int \<lfloor>x\<rfloor>")
    case True
    have "0 \<le> \<lfloor>x\<rfloor>" using x0 by simp
    moreover have "\<lfloor>x\<rfloor> < 2 ^ 47" using xb by (simp add: floor_less_iff)
    ultimately have "\<bar>\<lfloor>x\<rfloor>\<bar> < 2 ^ 53" by simp
    then have "to_double (of_int \<lfloor>x\<rfloor>) = Fin (of_int \<lfloor>x\<rfloor>)" by (rule to_double_of_int)
    then have "to_double x = Fin x" using True by simp
    then have "Math_ceil (to_double x) = Fin (of_int \<lceil>x\<rceil>)" by simp
    then show ?thesis unfolding jd x_def .
  next
    case False
    then have xp: "0 < x" using x0 by (cases "x = 0") simp_all
    obtain r where r: "to_double x = Fin r" and near: "\<bar>r - x\<bar> \<le> 1 / 128"
      using to_double_near [OF xp xb] by blast
    define k where "k = \<lfloor>x\<rfloor>"
    have np: "of_nat n = x * of_int p" using pr by (simp add: x_def)
    have "of_int \<lfloor>x\<rfloor> \<le> x" by (rule of_int_floor_le)
    moreover have "of_int \<lfloor>x\<rfloor> \<noteq> x" using False by (rule not_sym)
    ultimately have kx: "of_int k < x" unfolding k_def by (rule le_neq_trans)
    have xk: "x < of_int k + 1" unfolding k_def by linarith
    have "of_int (k * p) < (of_int (int n) :: rat)"
      using kx pr by (simp add: np)
    then have "k * p < int n" by (simp only: of_int_less_iff)
    then have "k * p + 1 \<le> int n" by simp
    then have "(of_int (k * p + 1) :: rat) \<le> of_int (int n)" by (simp only: of_int_le_iff)
    then have "of_int k * of_int p + 1 \<le> x * of_int p" by (simp add: np)
    then have "(of_int k * of_int p + 1) / of_int p \<le> x"
      using pr by (simp only: pos_divide_le_eq)
    then have "of_int k + 1 / of_int p \<le> x" using pr by (simp add: add_divide_distrib)
    moreover have "(1::rat) / 100 \<le> 1 / of_int p" using p by (simp add: field_simps)
    ultimately have lo: "of_int k + 1 / 100 \<le> x" by linarith
    have "(of_int (int n) :: rat) < of_int ((k + 1) * p)"
      using xk pr by (simp add: np)
    then have "int n < (k + 1) * p" by (simp only: of_int_less_iff)
    then have "int n + 1 \<le> (k + 1) * p" by simp
    then have "(of_int (int n + 1) :: rat) \<le> of_int ((k + 1) * p)" by (simp only: of_int_le_iff)
    then have "x * of_int p + 1 \<le> (of_int k + 1) * of_int p" by (simp add: np)
    then have "(x * of_int p + 1) / of_int p \<le> of_int k + 1"
      using pr by (simp only: pos_divide_le_eq)
    then have "x + 1 / of_int p \<le> of_int k + 1" using pr by (simp add: add_divide_distrib)
    moreover have "(1::rat) / 100 \<le> 1 / of_int p" using p by (simp add: field_simps)
    ultimately have hi: "x + 1 / 100 \<le> of_int k + 1" by linarith
    have "of_int k < r" "r \<le> of_int k + 1" using near lo hi by linarith+
    then have "\<lceil>r\<rceil> = k + 1" by (intro ceiling_unique) simp_all
    moreover have "\<lceil>x\<rceil> = k + 1" using kx xk by (intro ceiling_unique) simp_all
    ultimately have "Math_ceil (to_double x) = Fin (of_int \<lceil>x\<rceil>)" by (simp add: r)
    then show ?thesis unfolding jd x_def .
  qed
qed

section \<open>Normalisation and the cache key\<close>

lemma pageSize_of_cases:
  "pageSize_of D q =
     (case Number_opt D (q_pageSize q) of
        NaN \<Rightarrow> Fin 10
      | PosInf \<Rightarrow> Fin 100
      | NegInf \<Rightarrow> NegInf
      | Fin n \<Rightarrow> if n = 0 then Fin 10 else Fin (min n 100))"
  by (simp add: pageSize_of_def js_or_def split: jsnum.split)

lemma pageSize_shape:
  "pageSize_of D q \<noteq> NaN \<and> pageSize_of D q \<noteq> PosInf
   \<and> (\<forall>m. pageSize_of D q = Fin m \<longrightarrow> m \<le> 100 \<and> m \<noteq> 0)"
  by (cases "Number_opt D (q_pageSize q)")
     (auto simp: pageSize_of_def js_or_def min_def)

lemma is_integer_min_100: "is_integer n \<Longrightarrow> is_integer (min n 100)"
  by (simp add: min_def is_integer_def)

text \<open>
  C3. Two list requests with the same normalised parameters (the raw page, the clamped page
  size, the search and the difficulty) get the same key; the key is
  \<open>recipes:page=<page>&pageSize=<pageSize>&search=<search>&difficulty=<difficulty>\<close> with
  the raw page and the clamped page size; the page sizes 150 and 100 give one key.
\<close>

theorem cacheKey_normalised:
  "cacheKey D q =
     ''recipes:page='' @
     (case q_page q of None \<Rightarrow> NumberToString D (Fin 1) | Some v \<Rightarrow> ToString v) @
     ''&pageSize='' @
     NumberToString D (Math_min (js_or (Number_opt D (q_pageSize q)) (Fin 10)) (Fin 100)) @
     ''&search='' @ search_of q @ ''&difficulty='' @ difficulty_of q
   \<and> (page_of q = page_of q' \<and> pageSize_of D q = pageSize_of D q' \<and>
        search_of q = search_of q' \<and> difficulty_of q = difficulty_of q'
        \<longrightarrow> cacheKey D q = cacheKey D q')
   \<and> (StringToNumber D ''150'' = Fin 150 \<and> StringToNumber D ''100'' = Fin 100
        \<longrightarrow> cacheKey D (q\<lparr>q_pageSize := Some (QStr ''150'')\<rparr>) =
            cacheKey D (q\<lparr>q_pageSize := Some (QStr ''100'')\<rparr>))"
proof (intro conjI impI)
  show "cacheKey D q =
     ''recipes:page='' @
     (case q_page q of None \<Rightarrow> NumberToString D (Fin 1) | Some v \<Rightarrow> ToString v) @
     ''&pageSize='' @
     NumberToString D (Math_min (js_or (Number_opt D (q_pageSize q)) (Fin 10)) (Fin 100)) @
     ''&search='' @ search_of q @ ''&difficulty='' @ difficulty_of q"
    by (simp add: cacheKey_def page_of_def pageSize_of_def split: option.split)
next
  assume "page_of q = page_of q' \<and> pageSize_of D q = pageSize_of D q' \<and>
        search_of q = search_of q' \<and> difficulty_of q = difficulty_of q'"
  then show "cacheKey D q = cacheKey D q'"
    by (simp add: cacheKey_def)
next
  assume h: "StringToNumber D ''150'' = Fin 150 \<and> StringToNumber D ''100'' = Fin 100"
  have "pageSize_of D (q\<lparr>q_pageSize := Some (QStr ''150'')\<rparr>) = Fin 100"
    using h by (simp add: pageSize_of_def Number_opt_def js_or_def)
  moreover have "pageSize_of D (q\<lparr>q_pageSize := Some (QStr ''100'')\<rparr>) = Fin 100"
    using h by (simp add: pageSize_of_def Number_opt_def js_or_def)
  ultimately show "cacheKey D (q\<lparr>q_pageSize := Some (QStr ''150'')\<rparr>) =
            cacheKey D (q\<lparr>q_pageSize := Some (QStr ''100'')\<rparr>)"
    by (simp add: cacheKey_def page_of_def search_of_def difficulty_of_def)
qed

theorem cacheKey_normalised_witness:
  "cacheKey plain (bare\<lparr>q_pageSize := Some (QStr ''150'')\<rparr>) =
     cacheKey plain (bare\<lparr>q_pageSize := Some (QStr ''100'')\<rparr>)
   \<and> cacheKey plain (bare\<lparr>q_pageSize := Some (QStr ''150'')\<rparr>) =
     ''recipes:page=1&pageSize=100&search=&difficulty=''"
proof -
  have n150: "StringToNumber plain ''150'' = Fin 150"
    by code_simp
  have n100: "StringToNumber plain ''100'' = Fin 100"
    by code_simp
  have key: "cacheKey plain (bare\<lparr>q_pageSize := Some (QStr ''150'')\<rparr>) =
     ''recipes:page=1&pageSize=100&search=&difficulty=''"
    by code_simp
  have "cacheKey plain (bare\<lparr>q_pageSize := Some (QStr ''150'')\<rparr>) =
     cacheKey plain (bare\<lparr>q_pageSize := Some (QStr ''100'')\<rparr>)"
    using cacheKey_normalised [of plain bare bare] n150 n100 by simp
  with key show ?thesis
    by simp
qed

text \<open>
  C4, as the code has it. The page size is \<open>Math.min(Number(pageSize) || 10, 100)\<close>: 10 when
  the parameter is missing, zero or not a number, 100 for 500, never above 100, and within
  1 and 100 whenever the number given is at least 1 (an integer when that number is one).
  There is no lower bound and no rounding: a negative number, or one strictly between 0
  and 1, is passed on as it is.
\<close>

theorem pageSize_upper_clamp:
  "(q_pageSize q = None \<longrightarrow> pageSize_of D q = Fin 10)
   \<and> (Number_opt D (q_pageSize q) = NaN \<longrightarrow> pageSize_of D q = Fin 10)
   \<and> (Number_opt D (q_pageSize q) = Fin 0 \<longrightarrow> pageSize_of D q = Fin 10)
   \<and> (Number_opt D (q_pageSize q) = Fin 500 \<longrightarrow> pageSize_of D q = Fin 100)
   \<and> (Number_opt D (q_pageSize q) = PosInf \<longrightarrow> pageSize_of D q = Fin 100)
   \<and> (Number_opt D (q_pageSize q) = NegInf \<longrightarrow> pageSize_of D q = NegInf)
   \<and> (\<forall>n. Number_opt D (q_pageSize q) = Fin n \<and> 1 \<le> n
          \<longrightarrow> pageSize_of D q = Fin (min n 100) \<and> 1 \<le> min n 100 \<and> min n 100 \<le> 100
              \<and> (is_integer n \<longrightarrow> is_integer (min n 100)))
   \<and> (\<forall>n. Number_opt D (q_pageSize q) = Fin n \<and> n < 1 \<and> n \<noteq> 0
          \<longrightarrow> pageSize_of D q = Fin n)
   \<and> (\<forall>m. pageSize_of D q = Fin m \<longrightarrow> m \<le> 100 \<and> m \<noteq> 0)
   \<and> pageSize_of D q \<noteq> NaN \<and> pageSize_of D q \<noteq> PosInf"
proof (intro conjI allI impI)
  assume "q_pageSize q = None"
  then show "pageSize_of D q = Fin 10"
    by (simp add: pageSize_of_cases Number_opt_def)
next
  assume "Number_opt D (q_pageSize q) = NaN"
  then show "pageSize_of D q = Fin 10"
    by (simp add: pageSize_of_cases)
next
  assume "Number_opt D (q_pageSize q) = Fin 0"
  then show "pageSize_of D q = Fin 10"
    by (simp add: pageSize_of_cases)
next
  assume "Number_opt D (q_pageSize q) = Fin 500"
  then show "pageSize_of D q = Fin 100"
    by (simp add: pageSize_of_cases)
next
  assume "Number_opt D (q_pageSize q) = PosInf"
  then show "pageSize_of D q = Fin 100"
    by (simp add: pageSize_of_cases)
next
  assume "Number_opt D (q_pageSize q) = NegInf"
  then show "pageSize_of D q = NegInf"
    by (simp add: pageSize_of_cases)
next
  fix n assume "Number_opt D (q_pageSize q) = Fin n \<and> 1 \<le> n"
  then show "pageSize_of D q = Fin (min n 100)"
    by (simp add: pageSize_of_cases)
next
  fix n assume "Number_opt D (q_pageSize q) = Fin n \<and> 1 \<le> n"
  then show "1 \<le> min n 100"
    by simp
next
  fix n :: rat show "min n 100 \<le> 100"
    by simp
next
  fix n assume "is_integer n"
  then show "is_integer (min n 100)"
    by (rule is_integer_min_100)
next
  fix n assume "Number_opt D (q_pageSize q) = Fin n \<and> n < 1 \<and> n \<noteq> 0"
  then show "pageSize_of D q = Fin n"
    by (simp add: pageSize_of_cases)
next
  fix m assume "pageSize_of D q = Fin m"
  then show "m \<le> 100"
    using pageSize_shape [of D q] by simp
next
  fix m assume "pageSize_of D q = Fin m"
  then show "m \<noteq> 0"
    using pageSize_shape [of D q] by simp
next
  show "pageSize_of D q \<noteq> NaN"
    using pageSize_shape [of D q] by simp
next
  show "pageSize_of D q \<noteq> PosInf"
    using pageSize_shape [of D q] by simp
qed

theorem pageSize_upper_clamp_witness:
  "pageSize_of plain bare = Fin 10
   \<and> pageSize_of plain (bare\<lparr>q_pageSize := Some (QStr ''0'')\<rparr>) = Fin 10
   \<and> pageSize_of plain (bare\<lparr>q_pageSize := Some (QStr ''500'')\<rparr>) = Fin 100
   \<and> pageSize_of plain (bare\<lparr>q_pageSize := Some (QStr ''7'')\<rparr>) = Fin 7
   \<and> pageSize_of plain (bare\<lparr>q_pageSize := Some (QStr ''-5'')\<rparr>) = Fin (- 5)"
proof -
  have a: "q_pageSize bare = None"
    by (simp add: bare_def)
  have b: "Number_opt plain (q_pageSize (bare\<lparr>q_pageSize := Some (QStr ''0'')\<rparr>)) = Fin 0"
    by code_simp
  have c: "Number_opt plain (q_pageSize (bare\<lparr>q_pageSize := Some (QStr ''500'')\<rparr>)) = Fin 500"
    by code_simp
  have d: "Number_opt plain (q_pageSize (bare\<lparr>q_pageSize := Some (QStr ''7'')\<rparr>)) = Fin 7"
    by code_simp
  have e: "Number_opt plain (q_pageSize (bare\<lparr>q_pageSize := Some (QStr ''-5'')\<rparr>)) = Fin (- 5)"
    by code_simp
  have 1: "pageSize_of plain bare = Fin 10"
    using pageSize_upper_clamp [of bare plain] a by simp
  have 2: "pageSize_of plain (bare\<lparr>q_pageSize := Some (QStr ''0'')\<rparr>) = Fin 10"
    using pageSize_upper_clamp [of "bare\<lparr>q_pageSize := Some (QStr ''0'')\<rparr>" plain] b by simp
  have 3: "pageSize_of plain (bare\<lparr>q_pageSize := Some (QStr ''500'')\<rparr>) = Fin 100"
    using pageSize_upper_clamp [of "bare\<lparr>q_pageSize := Some (QStr ''500'')\<rparr>" plain] c by simp
  have 4: "pageSize_of plain (bare\<lparr>q_pageSize := Some (QStr ''7'')\<rparr>) = Fin 7"
    using pageSize_upper_clamp [of "bare\<lparr>q_pageSize := Some (QStr ''7'')\<rparr>" plain] d by simp
  have 5: "pageSize_of plain (bare\<lparr>q_pageSize := Some (QStr ''-5'')\<rparr>) = Fin (- 5)"
    using pageSize_upper_clamp [of "bare\<lparr>q_pageSize := Some (QStr ''-5'')\<rparr>" plain] e by simp
  from 1 2 3 4 5 show ?thesis
    by simp
qed

text \<open>
  C4 as stated fails: the page size \<open>-5\<close> is normalised to \<open>-5\<close>, which is below 1.
\<close>

theorem pageSize_negative_counterexample:
  "pageSize_of plain (bare\<lparr>q_pageSize := Some (QStr ''-5'')\<rparr>) = Fin (- 5)
   \<and> \<not> ((1::rat) \<le> - 5)"
  by code_simp

section \<open>GET /recipes: the paths of the handler\<close>


lemma JSON_parse_Inr: "JSON_parse c = Inr v \<longleftrightarrow> c = JsonText v"
  by (cases c) auto

lemma cache_check_error:
  "get_error E = Some m \<Longrightarrow>
   cache_check E k w = (None, console_error ''Redis fetch error:'' m (issue (RedisGet k) w))"
  by (simp add: cache_check_def redis_get_def)

lemma cache_check_hit:
  "get_error E = None \<Longrightarrow> live E w k = Some (JsonText v) \<Longrightarrow>
   cache_check E k w = (Some v, issue (RedisGet k) w)"
  by (simp add: cache_check_def redis_get_def)

lemma cache_check_Some:
  "cache_check E k w = (Some v, w') \<Longrightarrow>
   get_error E = None \<and> live E w k = Some (JsonText v) \<and> w' = issue (RedisGet k) w"
  by (auto simp: cache_check_def redis_get_def JSON_parse_Inr
           split: option.splits if_splits sum.splits)

lemma cache_check_None:
  "cache_check E k w = (None, w') \<Longrightarrow>
   docs w' = docs w \<and> cache w' = cache w \<and> ready w' = ready w \<and>
   (w' = issue (RedisGet k) w \<or>
    (\<exists>m. w' = console_error ''Redis fetch error:'' m (issue (RedisGet k) w)))"
  by (auto simp: cache_check_def redis_get_def issue_def console_error_def
           split: option.splits if_splits sum.splits cached.splits)

lemma fetch_from_store_fails:
  "store_answer D E (list_pipeline D q f) (docs w) = Inl m \<Longrightarrow>
   fetch_from_store D E q f w =
     (send 500 (error_details ''Failed to fetch recipes'' m),
      console_error ''Error fetching recipes:'' m (issue (Aggregate (list_pipeline D q f)) w))"
  by (simp add: fetch_from_store_def aggregate_def)

lemma fetch_from_store_succeeds:
  "store_answer D E (list_pipeline D q f) (docs w) = Inr results \<Longrightarrow>
   fetch_from_store D E q f w =
     (send 200 (cacheValue_of D q results),
      cache_fill E (cacheKey D q) (cacheValue_of D q results)
        (issue (Aggregate (list_pipeline D q f)) w))"
  by (simp add: fetch_from_store_def aggregate_def Let_def)

lemma list_recipes_miss:
  "build_query D (search_of q) (difficulty_of q) = Inr f \<Longrightarrow>
   cache_check E (cacheKey D q) w = (None, w1) \<Longrightarrow>
   list_recipes D E q w = fetch_from_store D E q f w1"
  by (simp add: list_recipes_def)

lemma list_recipes_hit:
  "build_query D (search_of q) (difficulty_of q) = Inr f \<Longrightarrow>
   cache_check E (cacheKey D q) w = (Some v, w1) \<Longrightarrow>
   list_recipes D E q w = (send 200 v, w1)"
  by (simp add: list_recipes_def)

lemma build_query_Inr:
  "build_query D s d = Inr f \<Longrightarrow>
   f = (if d = [] then [] else [Field (Regex ''difficulty'' \<lparr>source = d, flags = ''i''\<rparr>)]) @
       [Or [Regex ''title'' \<lparr>source = s, flags = ''i''\<rparr>,
            Regex ''ingredients.name'' \<lparr>source = s, flags = ''i''\<rparr>]]"
  by (auto simp: build_query_def new_RegExp_def split: if_splits option.splits sum.splits)

lemma cache_fill_ok:
  "set_error E = None \<Longrightarrow>
   cache_fill E k v w = issue (RedisSet k (JsonText v) 3600) (w\<lparr>cache := (cache w)(k \<mapsto> (JsonText v, now E + 3600))\<rparr>)"
  by (simp add: cache_fill_def redis_set_def JSON_stringify_def)

lemma cache_fill_error:
  "set_error E = Some m \<Longrightarrow>
   cache_fill E k v w = console_error ''Redis set error:'' m (issue (RedisSet k (JsonText v) 3600) w)"
  by (simp add: cache_fill_def redis_set_def JSON_stringify_def)

subsection \<open>The aggregation\<close>


lemma run_stages_list:
  "run_stages [Sort path 1, Skip s, Limit l, Project fs] rs = Inr out \<Longrightarrow>
   \<exists>a b. s = Fin a \<and> l = Fin b \<and> is_integer a \<and> 0 \<le> a \<and> is_integer b \<and> 0 < b \<and>
         out = map (project fs) (take (nat \<lfloor>b\<rfloor>) (drop (nat \<lfloor>a\<rfloor>) (sort_key (sort_field path) rs)))"
  by (cases s; cases l) (auto split: if_splits)

lemma store_answer_Inr:
  assumes "store_answer D E (list_pipeline D q f) ds = Inr results"
  shows "\<exists>a b. js_mul (js_sub (page_number D (page_of q)) (Fin 1)) (pageSize_of D q) = Fin a \<and>
           pageSize_of D q = Fin b \<and> is_integer a \<and> 0 \<le> a \<and> is_integer b \<and> 0 < b \<and>
           results =
             [\<lparr> out_recipes =
                  map (project [''title'', ''ingredients'', ''utensils'', ''difficulty'',
                                ''total time'', ''instructions''])
                    (take (nat \<lfloor>b\<rfloor>) (drop (nat \<lfloor>a\<rfloor>)
                       (sort_key (sort_field ''title'') (filter (matches D f) ds)))),
                out_totalCount = run_count ''count'' (filter (matches D f) ds) \<rparr>]"
proof -
  from assms have ok: "store_error E = None"
    and run: "run_pipeline D (list_pipeline D q f) ds = Inr results"
    by (auto simp: store_answer_def split: option.splits)
  from run obtain out where
    st: "run_stages (p_recipes (list_pipeline D q f)) (filter (matches D f) ds) = Inr out"
    and res: "results = [\<lparr> out_recipes = out,
                 out_totalCount = run_count ''count'' (filter (matches D f) ds) \<rparr>]"
    by (auto simp: run_pipeline_def list_pipeline_def Let_def split: sum.splits)
  from st have "run_stages [Sort ''title'' 1,
          Skip (js_mul (js_sub (page_number D (page_of q)) (Fin 1)) (pageSize_of D q)),
          Limit (pageSize_of D q),
          Project [''title'', ''ingredients'', ''utensils'', ''difficulty'', ''total time'',
                   ''instructions'']] (filter (matches D f) ds) = Inr out"
    by (simp add: list_pipeline_def)
  from run_stages_list [OF this] res show ?thesis
    by blast
qed

lemma totalRecipes_of_count:
  "totalRecipes_of [\<lparr> out_recipes = rs, out_totalCount = run_count ''count'' ms \<rparr>] =
     Fin (of_nat (length ms))"
  by (simp add: totalRecipes_of_def run_count_def js_or_def)

lemma recipes_of_single:
  "recipes_of [\<lparr> out_recipes = rs, out_totalCount = c \<rparr>] = rs"
  by (simp add: recipes_of_def)

lemma totalPages_of_count:
  assumes "n < 2 ^ 47" and "is_integer b" and "1 \<le> b" and "b \<le> 100"
  shows "totalPages_of (Fin (of_nat n)) (Fin b) = Fin (of_int \<lceil>of_nat n / b\<rceil>)"
proof -
  define p where "p = \<lfloor>b\<rfloor>"
  have b: "b = of_int p" using assms(2) unfolding is_integer_def p_def by (rule sym)
  have "1 \<le> p" "p \<le> 100" using assms(3,4) by (simp_all add: b)
  from ceil_div_double [OF assms(1) this] show ?thesis
    by (simp only: totalPages_of_def b)
qed

lemma totalPages_examples:
  "totalPages_of (Fin 0) (Fin 10) = Fin 0 \<and> totalPages_of (Fin 25) (Fin 10) = Fin 3"
  by code_simp

lemma is_integer_nat_floor:
  "is_integer b \<Longrightarrow> 0 \<le> b \<Longrightarrow> of_nat (nat \<lfloor>b\<rfloor>) = b"
  by (simp add: is_integer_def)

subsection \<open>What a request leaves in the cache\<close>

lemma cacheKey_not_pattern: "cacheKey D q \<noteq> ''recipes:*''"
  by (simp add: cacheKey_def)

lemma cache_clearRecipeCache:
  "cache (clearRecipeCache E w) k =
     (if del_error E = None \<and> k = ''recipes:*'' then None else cache w k)"
  by (simp add: clearRecipeCache_def redis_del_def issue_def console_error_def
        split: option.split)

lemma cache_health: "cache (snd (health E w)) = cache w"
  by (simp add: health_def redis_ping_def issue_def Let_def split: sum.split)

lemma cache_get_recipe: "cache (snd (get_recipe D E i w)) = cache w"
  by (simp add: get_recipe_def findById_def issue_def console_error_def
        split: option.split)

lemma cache_create_recipe:
  "cache (snd (create_recipe D E b w)) k = Some x \<Longrightarrow> cache w k = Some x"
  by (auto simp: create_recipe_def save_def issue_def console_error_def Let_def
        cache_clearRecipeCache split: option.splits if_splits)

lemma cache_update_recipe:
  "cache (snd (update_recipe D E i b w)) k = Some x \<Longrightarrow> cache w k = Some x"
  by (auto simp: update_recipe_def findByIdAndUpdate_def issue_def console_error_def Let_def
        cache_clearRecipeCache split: option.splits if_splits)

lemma cache_delete_recipe:
  "cache (snd (delete_recipe D E i w)) k = Some x \<Longrightarrow> cache w k = Some x"
  by (auto simp: delete_recipe_def findByIdAndDelete_def issue_def console_error_def
        cache_clearRecipeCache split: option.splits if_splits)

lemma cache_cache_fill:
  "cache (cache_fill E k v w) k' = Some x \<Longrightarrow>
   cache w k' = Some x \<or> x = (JsonText v, now E + 3600)"
  by (cases "set_error E")
     (auto simp: cache_fill_ok cache_fill_error issue_def console_error_def split: if_splits)

lemma cache_fetch_from_store:
  "cache (snd (fetch_from_store D E q f w)) k = Some x \<Longrightarrow>
   cache w k = Some x \<or>
   (\<exists>results. store_answer D E (list_pipeline D q f) (docs w) = Inr results \<and>
      x = (JsonText (cacheValue_of D q results), now E + 3600))"
proof (cases "store_answer D E (list_pipeline D q f) (docs w)")
  case (Inl m)
  assume "cache (snd (fetch_from_store D E q f w)) k = Some x"
  with fetch_from_store_fails [OF Inl] show ?thesis
    by (simp add: console_error_def issue_def)
next
  case (Inr results)
  assume "cache (snd (fetch_from_store D E q f w)) k = Some x"
  with fetch_from_store_succeeds [OF Inr]
  have "cache (cache_fill E (cacheKey D q) (cacheValue_of D q results)
          (issue (Aggregate (list_pipeline D q f)) w)) k = Some x"
    by simp
  from cache_cache_fill [OF this] Inr show ?thesis
    by (auto simp: issue_def)
qed

lemma cache_list_recipes:
  assumes "cache (snd (list_recipes D E q w)) k = Some x"
  shows "cache w k = Some x \<or>
   (\<exists>f results. build_query D (search_of q) (difficulty_of q) = Inr f \<and>
      store_answer D E (list_pipeline D q f) (docs w) = Inr results \<and>
      x = (JsonText (cacheValue_of D q results), now E + 3600))"
proof (cases "build_query D (search_of q) (difficulty_of q)")
  case (Inl m)
  with assms show ?thesis
    by (simp add: list_recipes_def)
next
  case (Inr f)
  show ?thesis
  proof (cases "fst (cache_check E (cacheKey D q) w)")
    case None
    define w1 where "w1 = snd (cache_check E (cacheKey D q) w)"
    with None have cc: "cache_check E (cacheKey D q) w = (None, w1)"
      by (simp add: prod_eq_iff)
    from cache_check_None [OF cc] have same: "docs w1 = docs w" "cache w1 = cache w"
      by simp_all
    from list_recipes_miss [OF Inr cc] assms
    have "cache (snd (fetch_from_store D E q f w1)) k = Some x"
      by simp
    from cache_fetch_from_store [OF this] same Inr show ?thesis
      by auto
  next
    case (Some v)
    then have cc: "cache_check E (cacheKey D q) w =
        (Some v, snd (cache_check E (cacheKey D q) w))"
      by (simp add: prod_eq_iff)
    from cache_check_Some [OF cc] list_recipes_hit [OF Inr cc] assms show ?thesis
      by (simp add: issue_def)
  qed
qed

lemma cache_serve:
  assumes "cache (snd (serve D E req w)) k = Some x"
  shows "cache w k = Some x \<or>
   (\<exists>q f results. req = GetRecipes q \<and>
      build_query D (search_of q) (difficulty_of q) = Inr f \<and>
      store_answer D E (list_pipeline D q f) (docs w) = Inr results \<and>
      x = (JsonText (cacheValue_of D q results), now E + 3600))"
proof (cases req)
  case GetHealth
  with assms show ?thesis by (simp add: cache_health)
next
  case (PostRecipes b)
  with assms cache_create_recipe [of D E b w k x] show ?thesis by simp
next
  case (GetRecipes q)
  with assms cache_list_recipes [of D E q w k x] show ?thesis by simp
next
  case (GetRecipe i)
  with assms show ?thesis by (simp add: cache_get_recipe)
next
  case (PutRecipe i b)
  with assms cache_update_recipe [of D E i b w k x] show ?thesis by simp
next
  case (DeleteRecipe i)
  with assms cache_delete_recipe [of D E i w k x] show ?thesis by simp
qed

subsection \<open>The kitchen, evaluated\<close>

lemma kitchen_miss: "fst (cache_check quiet (cacheKey plain bare) kitchen) = None"
  by code_simp

lemma kitchen_page:
  "fst (list_recipes plain quiet bare kitchen) = Sent \<lparr> status = 200, body = soup_page \<rparr>"
  by code_simp


subsection \<open>Answers from the store\<close>


lemma is_integer_pos: "is_integer p \<Longrightarrow> 0 < p \<Longrightarrow> 1 \<le> p"
proof -
  assume i: "is_integer p" and pos: "0 < p"
  from i have "of_int \<lfloor>p\<rfloor> = p"
    unfolding is_integer_def .
  then have p: "p = of_int \<lfloor>p\<rfloor>"
    by (rule sym)
  from pos p have "0 < (of_int \<lfloor>p\<rfloor> :: rat)"
    by simp
  then have "1 \<le> \<lfloor>p\<rfloor>"
    by simp
  then have "(1::rat) \<le> of_int \<lfloor>p\<rfloor>"
    by (metis of_int_1_le_iff)
  with p show ?thesis
    by simp
qed

lemma list_recipes_Sent_build:
  "fst (list_recipes D E q w) = Sent r \<Longrightarrow>
   \<exists>f. build_query D (search_of q) (difficulty_of q) = Inr f"
  by (cases "build_query D (search_of q) (difficulty_of q)") (auto simp: list_recipes_def)

lemma list_recipes_from_store:
  assumes miss: "fst (cache_check E (cacheKey D q) w) = None"
      and sent: "fst (list_recipes D E q w) = Sent r"
      and ok: "status r = 200"
  shows "\<exists>f results w1.
           build_query D (search_of q) (difficulty_of q) = Inr f \<and>
           cache_check E (cacheKey D q) w = (None, w1) \<and>
           store_answer D E (list_pipeline D q f) (docs w) = Inr results \<and>
           r = \<lparr> status = 200, body = cacheValue_of D q results \<rparr> \<and>
           snd (list_recipes D E q w) =
             cache_fill E (cacheKey D q) (cacheValue_of D q results)
               (issue (Aggregate (list_pipeline D q f)) w1)"
proof -
  from list_recipes_Sent_build [OF sent] obtain f where
    f: "build_query D (search_of q) (difficulty_of q) = Inr f"
    by blast
  define w1 where "w1 = snd (cache_check E (cacheKey D q) w)"
  with miss have cc: "cache_check E (cacheKey D q) w = (None, w1)"
    by (simp add: prod_eq_iff)
  from cache_check_None [OF cc] have d: "docs w1 = docs w"
    by simp
  from list_recipes_miss [OF f cc] have lr: "list_recipes D E q w = fetch_from_store D E q f w1"
    .
  show ?thesis
  proof (cases "store_answer D E (list_pipeline D q f) (docs w)")
    case (Inl m)
    with d have "store_answer D E (list_pipeline D q f) (docs w1) = Inl m"
      by simp
    from fetch_from_store_fails [OF this] lr sent have "status r = 500"
      by (auto simp: send_def)
    with ok show ?thesis
      by simp
  next
    case (Inr results)
    with d have "store_answer D E (list_pipeline D q f) (docs w1) = Inr results"
      by simp
    from fetch_from_store_succeeds [OF this] lr sent
    have "r = \<lparr> status = 200, body = cacheValue_of D q results \<rparr>"
      and "snd (list_recipes D E q w) =
             cache_fill E (cacheKey D q) (cacheValue_of D q results)
               (issue (Aggregate (list_pipeline D q f)) w1)"
      by (auto simp: send_def)
    with f cc Inr show ?thesis
      by blast
  qed
qed



lemma cacheValue_shape:
  assumes sa: "store_answer D E (list_pipeline D q f) ds = Inr results"
  shows "\<exists>rs p.
           cacheValue_of D q results =
             JObj [(''recipes'', JArr (map recipe_json rs)),
                   (''totalRecipes'', JNum (of_nat (length (filter (matches D f) ds)))),
                   (''totalPages'',
                    num_json (totalPages_of
                      (Fin (of_nat (length (filter (matches D f) ds)))) (Fin p))),
                   (''currentPage'', page_json (page_of q))]
         \<and> pageSize_of D q = Fin p \<and> is_integer p \<and> 1 \<le> p \<and> p \<le> 100
         \<and> of_nat (length rs) \<le> p"
proof -
  define ms where "ms = filter (matches D f) ds"
  from store_answer_Inr [OF sa, folded ms_def] obtain a :: rat and b where
    b: "pageSize_of D q = Fin b" and ib: "is_integer b" and pos: "0 < b"
    and res: "results =
      [\<lparr> out_recipes =
           map (project [''title'', ''ingredients'', ''utensils'', ''difficulty'',
                         ''total time'', ''instructions''])
             (take (nat \<lfloor>b\<rfloor>) (drop (nat \<lfloor>a\<rfloor>) (sort_key (sort_field ''title'') ms))),
         out_totalCount = run_count ''count'' ms \<rparr>]"
    by blast
  define rs where "rs = recipes_of results"
  have len: "length rs \<le> nat \<lfloor>b\<rfloor>"
    by (simp add: rs_def res recipes_of_single)
  from pos have "0 \<le> b"
    by simp
  from is_integer_nat_floor [OF ib this] have nb: "of_nat (nat \<lfloor>b\<rfloor>) = b" .
  from len have "(of_nat (length rs) :: rat) \<le> of_nat (nat \<lfloor>b\<rfloor>)"
    by (simp only: of_nat_le_iff)
  with nb have lenb: "of_nat (length rs) \<le> b"
    by simp
  have tr: "totalRecipes_of results = Fin (of_nat (length ms))"
    by (simp only: res totalRecipes_of_count)
  have shape: "cacheValue_of D q results =
      JObj [(''recipes'', JArr (map recipe_json rs)),
            (''totalRecipes'', JNum (of_nat (length ms))),
            (''totalPages'', num_json (totalPages_of (Fin (of_nat (length ms))) (Fin b))),
            (''currentPage'', page_json (page_of q))]"
    by (simp add: cacheValue_of_def page_result_def tr b rs_def)
  from pageSize_shape [of D q] b have le: "b \<le> 100"
    by simp
  from is_integer_pos [OF ib pos] have one: "1 \<le> b" .
  from shape b ib one le lenb show ?thesis
    unfolding ms_def by blast
qed

subsection \<open>The filter and the stages\<close>


lemma matches_built:
  assumes "build_query D s d = Inr f"
  shows "matches D f r \<longleftrightarrow>
     (d = [] \<or> (\<exists>x. difficulty (content r) = Some x \<and>
                     regex_match D \<lparr>source = d, flags = ''i''\<rparr> x))
     \<and> ((\<exists>t. title (content r) = Some t \<and> regex_match D \<lparr>source = s, flags = ''i''\<rparr> t)
        \<or> (\<exists>is i. ingredients (content r) = Some is \<and> i \<in> set is \<and>
                   regex_match D \<lparr>source = s, flags = ''i''\<rparr> (name i)))"
proof -
  have t: "holds D r (Regex ''title'' \<lparr>source = s, flags = ''i''\<rparr>) \<longleftrightarrow>
      (\<exists>t. title (content r) = Some t \<and> regex_match D \<lparr>source = s, flags = ''i''\<rparr> t)"
    by (cases "title (content r)") (simp_all add: strings_at_def opt_list_def)
  have i: "holds D r (Regex ''ingredients.name'' \<lparr>source = s, flags = ''i''\<rparr>) \<longleftrightarrow>
      (\<exists>is i. ingredients (content r) = Some is \<and> i \<in> set is \<and>
                   regex_match D \<lparr>source = s, flags = ''i''\<rparr> (name i))"
    by (cases "ingredients (content r)")
       (auto simp: strings_at_def opt_concat_def list_ex_iff)
  have d: "holds D r (Regex ''difficulty'' \<lparr>source = d, flags = ''i''\<rparr>) \<longleftrightarrow>
      (\<exists>x. difficulty (content r) = Some x \<and> regex_match D \<lparr>source = d, flags = ''i''\<rparr> x)"
    by (cases "difficulty (content r)") (simp_all add: strings_at_def opt_list_def)
  from build_query_Inr [OF assms] have
    "matches D f r \<longleftrightarrow>
       (d = [] \<or> holds D r (Regex ''difficulty'' \<lparr>source = d, flags = ''i''\<rparr>)) \<and>
       (holds D r (Regex ''title'' \<lparr>source = s, flags = ''i''\<rparr>) \<or>
        holds D r (Regex ''ingredients.name'' \<lparr>source = s, flags = ''i''\<rparr>))"
    by (simp add: matches_def)
  with t i d show ?thesis
    by simp
qed

lemma sort_field_title: "sort_field ''title'' = (\<lambda>r. title (content r))"
  by (rule ext) (simp add: sort_field_def)

lemma title_project:
  "''title'' \<in> set fs \<Longrightarrow> title (content (project fs r)) = title (content r)"
  by (simp add: project_def keep_def)

lemma sorted_page:
  assumes "''title'' \<in> set fs"
  shows "sorted (map (\<lambda>r. title (content r))
           (map (project fs) (take n (drop m (sort_key (\<lambda>r. title (content r)) ms)))))"
proof -
  have "map (\<lambda>r. title (content r))
           (map (project fs) (take n (drop m (sort_key (\<lambda>r. title (content r)) ms)))) =
        take n (drop m (map (\<lambda>r. title (content r)) (sort_key (\<lambda>r. title (content r)) ms)))"
    using assms by (simp add: take_map drop_map title_project comp_def)
  moreover have "sorted (map (\<lambda>r. title (content r)) (sort_key (\<lambda>r. title (content r)) ms))"
    by (rule sorted_sort_key)
  ultimately show ?thesis
    by (simp add: sorted_wrt_take sorted_wrt_drop)
qed

lemma run_pipeline_skip:
  assumes "js_mul (js_sub (page_number D (page_of q)) (Fin 1)) (pageSize_of D q) = Fin s"
      and "pageSize_of D q = Fin b"
      and "is_integer s" and "0 \<le> s" and "s < 2 ^ 63" and "is_integer b" and "1 \<le> b"
  shows "run_pipeline D (list_pipeline D q f) ds =
     Inr [\<lparr> out_recipes =
              map (project [''title'', ''ingredients'', ''utensils'', ''difficulty'',
                            ''total time'', ''instructions''])
                (take (nat \<lfloor>b\<rfloor>) (drop (nat \<lfloor>s\<rfloor>)
                   (sort_key (\<lambda>r. title (content r)) (filter (matches D f) ds)))),
            out_totalCount =
              (if filter (matches D f) ds = [] then []
               else [(''count'', length (filter (matches D f) ds))]) \<rparr>]"
proof -
  from pageSize_shape [of D q] assms(2) have "b \<le> 100"
    by simp
  then have "b < 2 ^ 63"
    by simp
  moreover from assms(7) have "0 < b"
    by simp
  ultimately show ?thesis
    using assms(1-6)
    by (simp add: run_pipeline_def list_pipeline_def Let_def run_count_def sort_field_title)
qed

lemma run_pipeline_rejects_skip:
  assumes "js_mul (js_sub (page_number D (page_of q)) (Fin 1)) (pageSize_of D q) = x"
      and "\<forall>s. x = Fin s \<longrightarrow> \<not> (is_integer s \<and> 0 \<le> s \<and> s < 2 ^ 63)"
  shows "run_pipeline D (list_pipeline D q f) ds = Inl ''invalid argument to $skip stage''"
  using assms
  by (cases x) (auto simp: run_pipeline_def list_pipeline_def Let_def)

text \<open>
  For a page number \<open>a\<close> and a page size \<open>b\<close> that are integers with \<open>(a - 1) * b\<close> below
  \<open>2^53\<close>, the doubles compute the skip exactly.
\<close>

lemma skip_exact:
  assumes "is_integer a" and "is_integer b" and "1 \<le> a" and "1 \<le> b"
      and "(a - 1) * b < 2 ^ 53"
  shows "js_mul (js_sub (Fin a) (Fin 1)) (Fin b) = Fin ((a - 1) * b)"
proof -
  define i where "i = \<lfloor>a\<rfloor>"
  define j where "j = \<lfloor>b\<rfloor>"
  have a: "a = of_int i" using assms(1) unfolding is_integer_def i_def by (rule sym)
  have b: "b = of_int j" using assms(2) unfolding is_integer_def j_def by (rule sym)
  have i: "1 \<le> i" and j: "1 \<le> j" using assms(3,4) by (simp_all add: a b)
  have "(of_int ((i - 1) * j) :: rat) < of_int (2 ^ 53)" using assms(5) by (simp add: a b)
  then have m: "(i - 1) * j < 2 ^ 53" by (simp only: of_int_less_iff)
  have "i - 1 \<le> (i - 1) * j" using i j by (simp add: mult_le_cancel_left1)
  with m have "i - 1 < 2 ^ 53" by simp
  with i have "\<bar>i - 1\<bar> < 2 ^ 53" by simp
  from js_sub_int [OF this] have sub: "js_sub (Fin a) (Fin 1) = Fin (of_int (i - 1))"
    unfolding a by (simp only: of_int_1)
  have "0 \<le> (i - 1) * j" using i j by simp
  with m have "\<bar>(i - 1) * j\<bar> < 2 ^ 53" by simp
  from js_mul_int [OF this]
  have "js_mul (js_sub (Fin a) (Fin 1)) (Fin b) = Fin (of_int ((i - 1) * j))"
    by (simp only: sub b)
  also have "(of_int ((i - 1) * j) :: rat) = (a - 1) * b"
    by (simp add: a b)
  finally show ?thesis .
qed

lemma run_pipeline_valid:
  assumes "page_number D (page_of q) = Fin a" and "pageSize_of D q = Fin b"
      and "is_integer a" and "is_integer b" and "1 \<le> a" and "1 \<le> b"
      and "(a - 1) * b < 2 ^ 53"
  shows "run_pipeline D (list_pipeline D q f) ds =
     Inr [\<lparr> out_recipes =
              map (project [''title'', ''ingredients'', ''utensils'', ''difficulty'',
                            ''total time'', ''instructions''])
                (take (nat \<lfloor>b\<rfloor>) (drop (nat \<lfloor>(a - 1) * b\<rfloor>)
                   (sort_key (\<lambda>r. title (content r)) (filter (matches D f) ds)))),
            out_totalCount =
              (if filter (matches D f) ds = [] then []
               else [(''count'', length (filter (matches D f) ds))]) \<rparr>]"
proof -
  from assms(3) have "is_integer (a - 1)"
    by (metis Ints_1 Ints_diff Ints_of_int is_integer_def of_int_floor)
  with assms(4) have "is_integer ((a - 1) * b)"
    by (metis Ints_mult Ints_of_int is_integer_def of_int_floor)
  moreover from assms(5,6) have "0 \<le> (a - 1) * b"
    by simp
  moreover from assms(7) have "(a - 1) * b < 2 ^ 63"
    by simp
  moreover have "js_mul (js_sub (page_number D (page_of q)) (Fin 1)) (pageSize_of D q) =
      Fin ((a - 1) * b)"
    using skip_exact [OF assms(3,4,5,6,7)] by (simp only: assms(1,2))
  ultimately show ?thesis
    using assms(2,4,6) by (intro run_pipeline_skip)
qed

lemma run_pipeline_sorted_counted:
  assumes "run_pipeline D (list_pipeline D q f) ds = Inr results"
  shows "sorted (map (\<lambda>r. title (content r)) (recipes_of results))
         \<and> totalRecipes_of results = Fin (of_nat (length (filter (matches D f) ds)))"
proof -
  define E :: env where "E = \<lparr> now = 0, get_error = None, set_error = None, del_error = None,
       ping_reply = Inr [], store_error = None, new_id = [], uptime = JNull,
       memoryUsage = JNull \<rparr>"
  from assms have "store_answer D E (list_pipeline D q f) ds = Inr results"
    by (simp add: store_answer_def E_def)
  from store_answer_Inr [OF this] obtain a :: rat and b :: rat where
    res: "results =
      [\<lparr> out_recipes =
           map (project [''title'', ''ingredients'', ''utensils'', ''difficulty'',
                         ''total time'', ''instructions''])
             (take (nat \<lfloor>b\<rfloor>) (drop (nat \<lfloor>a\<rfloor>)
                (sort_key (sort_field ''title'') (filter (matches D f) ds)))),
         out_totalCount = run_count ''count'' (filter (matches D f) ds) \<rparr>]"
    by blast
  have "sorted (map (\<lambda>r. title (content r)) (recipes_of results))"
    unfolding res recipes_of_single sort_field_title
    by (rule sorted_page) simp
  moreover have "totalRecipes_of results = Fin (of_nat (length (filter (matches D f) ds)))"
    by (simp only: res totalRecipes_of_count)
  ultimately show ?thesis
    by simp
qed

lemma calls_cache_check:
  "calls (snd (cache_check E k w)) = calls w @ [RedisGet k]"
  by (simp add: cache_check_def redis_get_def issue_def console_error_def
           split: option.split sum.split)

lemma calls_fetch_from_store:
  "\<exists>cs. calls (snd (fetch_from_store D E q f w)) =
           calls w @ Aggregate (list_pipeline D q f) # cs \<and>
         (cs = [] \<or> (\<exists>v. cs = [RedisSet (cacheKey D q) v 3600]))"
proof (cases "store_answer D E (list_pipeline D q f) (docs w)")
  case (Inl m)
  from fetch_from_store_fails [OF this] show ?thesis
    by (simp add: console_error_def issue_def)
next
  case (Inr results)
  from fetch_from_store_succeeds [OF this] show ?thesis
    by (cases "set_error E")
       (simp_all add: cache_fill_ok cache_fill_error console_error_def issue_def)
qed


lemma calls_list_recipes_miss:
  assumes build: "build_query D (search_of q) (difficulty_of q) = Inr f"
      and miss: "fst (cache_check E (cacheKey D q) w) = None"
  shows "\<exists>cs. calls (snd (list_recipes D E q w)) =
             calls w @ [RedisGet (cacheKey D q), Aggregate (list_pipeline D q f)] @ cs
           \<and> (cs = [] \<or> (\<exists>v. cs = [RedisSet (cacheKey D q) v 3600]))"
proof -
  define w1 where "w1 = snd (cache_check E (cacheKey D q) w)"
  with miss have cc: "cache_check E (cacheKey D q) w = (None, w1)"
    by (simp add: prod_eq_iff)
  from calls_cache_check [of E "cacheKey D q" w] have c1:
    "calls w1 = calls w @ [RedisGet (cacheKey D q)]"
    by (simp add: w1_def)
  from calls_fetch_from_store [of D E q f w1] obtain cs where
    "calls (snd (fetch_from_store D E q f w1)) =
        calls w1 @ Aggregate (list_pipeline D q f) # cs"
    and "cs = [] \<or> (\<exists>v. cs = [RedisSet (cacheKey D q) v 3600])"
    by blast
  with c1 list_recipes_miss [OF build cc] show ?thesis
    by simp
qed


lemma bare_query:
  "build_query plain (search_of bare) (difficulty_of bare) =
     Inr [Or [Regex ''title'' \<lparr>source = [], flags = ''i''\<rparr>,
              Regex ''ingredients.name'' \<lparr>source = [], flags = ''i''\<rparr>]]"
  by code_simp


subsection \<open>The parameters as the handler reads them\<close>

lemma search_of_raw:
  "search_of q = (case q_search q of Some (QStr s) \<Rightarrow> s | _ \<Rightarrow> [])"
  by (cases "q_search q" rule: string_or_empty.cases) (simp_all add: search_of_def)

lemma difficulty_of_raw:
  "difficulty_of q = (case q_difficulty q of Some (QStr s) \<Rightarrow> s | _ \<Rightarrow> [])"
  by (cases "q_difficulty q" rule: string_or_empty.cases) (simp_all add: difficulty_of_def)

lemma page_number_raw:
  "page_number D (page_of q) = (case q_page q of None \<Rightarrow> Fin 1 | Some v \<Rightarrow> ToNumber D v)"
  by (simp add: page_of_def split: option.split)

lemma build_query_compiles:
  assumes "RegExp_error D s = None" and "d = [] \<or> RegExp_error D d = None"
  shows "build_query D s d =
     Inr ((if d = [] then [] else [Field (Regex ''difficulty'' \<lparr>source = d, flags = ''i''\<rparr>)]) @
          [Or [Regex ''title'' \<lparr>source = s, flags = ''i''\<rparr>,
               Regex ''ingredients.name'' \<lparr>source = s, flags = ''i''\<rparr>]])"
  using assms by (auto simp: build_query_def new_RegExp_def)

subsection \<open>A skip the store rejects\<close>

lemma list_recipes_skip_rejected:
  assumes build: "build_query D (search_of q) (difficulty_of q) = Inr f"
      and miss: "fst (cache_check E (cacheKey D q) w) = None"
      and store: "store_error E = None"
      and bad: "\<forall>s. js_mul (js_sub (page_number D (page_of q)) (Fin 1)) (pageSize_of D q) = Fin s
                  \<longrightarrow> \<not> (is_integer s \<and> 0 \<le> s \<and> s < 2 ^ 63)"
  shows "fst (list_recipes D E q w) =
           send 500 (error_details ''Failed to fetch recipes'' ''invalid argument to $skip stage'')
         \<and> cache (snd (list_recipes D E q w)) = cache w"
proof -
  define w1 where "w1 = snd (cache_check E (cacheKey D q) w)"
  with miss have cc: "cache_check E (cacheKey D q) w = (None, w1)"
    by (simp add: prod_eq_iff)
  from cache_check_None [OF cc] have same: "cache w1 = cache w"
    by simp
  from run_pipeline_rejects_skip [OF refl bad]
  have "run_pipeline D (list_pipeline D q f) (docs w1) = Inl ''invalid argument to $skip stage''" .
  with store have "store_answer D E (list_pipeline D q f) (docs w1) =
      Inl ''invalid argument to $skip stage''"
    by (simp add: store_answer_def)
  from fetch_from_store_fails [OF this] list_recipes_miss [OF build cc]
  have "list_recipes D E q w =
     (send 500 (error_details ''Failed to fetch recipes'' ''invalid argument to $skip stage''),
      console_error ''Error fetching recipes:'' ''invalid argument to $skip stage''
        (issue (Aggregate (list_pipeline D q f)) w1))"
    by simp
  with same show ?thesis
    by (simp add: console_error_def issue_def)
qed

subsection \<open>The key of a new cache entry\<close>

lemma cache_fill_keyed:
  "cache (cache_fill E k v w) k' = Some x \<Longrightarrow>
   cache w k' = Some x \<or> (k' = k \<and> x = (JsonText v, now E + 3600))"
  by (cases "set_error E")
     (auto simp: cache_fill_ok cache_fill_error issue_def console_error_def split: if_splits)

lemma fetch_from_store_keyed:
  "cache (snd (fetch_from_store D E q f w)) k = Some x \<Longrightarrow>
   cache w k = Some x \<or>
   (\<exists>results. store_answer D E (list_pipeline D q f) (docs w) = Inr results \<and>
      k = cacheKey D q \<and> x = (JsonText (cacheValue_of D q results), now E + 3600))"
proof (cases "store_answer D E (list_pipeline D q f) (docs w)")
  case (Inl m)
  assume "cache (snd (fetch_from_store D E q f w)) k = Some x"
  with fetch_from_store_fails [OF Inl] show ?thesis
    by (simp add: console_error_def issue_def)
next
  case (Inr results)
  assume "cache (snd (fetch_from_store D E q f w)) k = Some x"
  with fetch_from_store_succeeds [OF Inr]
  have "cache (cache_fill E (cacheKey D q) (cacheValue_of D q results)
          (issue (Aggregate (list_pipeline D q f)) w)) k = Some x"
    by simp
  from cache_fill_keyed [OF this] Inr show ?thesis
    by (auto simp: issue_def)
qed

lemma list_recipes_keyed:
  assumes "cache (snd (list_recipes D E q w)) k = Some x"
  shows "cache w k = Some x \<or>
   (\<exists>f results. build_query D (search_of q) (difficulty_of q) = Inr f \<and>
      store_answer D E (list_pipeline D q f) (docs w) = Inr results \<and>
      k = cacheKey D q \<and> x = (JsonText (cacheValue_of D q results), now E + 3600))"
proof (cases "build_query D (search_of q) (difficulty_of q)")
  case (Inl m)
  with assms show ?thesis
    by (simp add: list_recipes_def)
next
  case (Inr f)
  show ?thesis
  proof (cases "fst (cache_check E (cacheKey D q) w)")
    case None
    define w1 where "w1 = snd (cache_check E (cacheKey D q) w)"
    with None have cc: "cache_check E (cacheKey D q) w = (None, w1)"
      by (simp add: prod_eq_iff)
    from cache_check_None [OF cc] have same: "docs w1 = docs w" "cache w1 = cache w"
      by simp_all
    from list_recipes_miss [OF Inr cc] assms
    have "cache (snd (fetch_from_store D E q f w1)) k = Some x"
      by simp
    from fetch_from_store_keyed [OF this] same Inr show ?thesis
      by auto
  next
    case (Some v)
    then have cc: "cache_check E (cacheKey D q) w =
        (Some v, snd (cache_check E (cacheKey D q) w))"
      by (simp add: prod_eq_iff)
    from cache_check_Some [OF cc] list_recipes_hit [OF Inr cc] assms show ?thesis
      by (simp add: issue_def)
  qed
qed

lemma serve_keyed:
  assumes "cache (snd (serve D E req w)) k = Some x"
  shows "cache w k = Some x \<or>
   (\<exists>q f results. req = GetRecipes q \<and>
      build_query D (search_of q) (difficulty_of q) = Inr f \<and>
      store_answer D E (list_pipeline D q f) (docs w) = Inr results \<and>
      k = cacheKey D q \<and> x = (JsonText (cacheValue_of D q results), now E + 3600))"
proof (cases req)
  case GetHealth
  with assms show ?thesis by (simp add: cache_health)
next
  case (PostRecipes b)
  with assms cache_create_recipe [of D E b w k x] show ?thesis by simp
next
  case (GetRecipes q)
  with assms list_recipes_keyed [of D E q w k x] show ?thesis by simp
next
  case (GetRecipe i)
  with assms show ?thesis by (simp add: cache_get_recipe)
next
  case (PutRecipe i b)
  with assms cache_update_recipe [of D E i b w k x] show ?thesis by simp
next
  case (DeleteRecipe i)
  with assms cache_delete_recipe [of D E i w k x] show ?thesis by simp
qed

subsection \<open>The pantry, evaluated\<close>

lemma pantry_miss: "fst (cache_check quiet (cacheKey plain second_page) pantry) = None"
  by code_simp

lemma pantry_page:
  "fst (list_recipes plain quiet second_page pantry) =
     Sent \<lparr> status = 200, body = samosa_page \<rparr>"
  by code_simp
section \<open>Pagination arithmetic\<close>

text \<open>
  C6, as the code has it. A page result that the list endpoint builds from the store has
  \<open>totalRecipes\<close> the number of matching documents, \<open>totalPages\<close> the value of
  \<open>Math.ceil(totalRecipes / pageSize)\<close> on doubles, where the page size of the request is
  an integer from 1 to 100, and at most \<open>pageSize\<close> recipes. For a count below \<open>2^47\<close> that
  value is the ceiling of the quotient: no recipes and page size 10 give 0 pages, 25
  recipes give 3. A page result served from the cache is the one stored under the key of
  the request. When every JSON text in the cache is a page result built for a request
  with the key it is stored under, so is every body sent with status 200, for the key of
  the request served, and so is every JSON text in the cache after any request: the
  relations hold for the page size of the request that built the page result.
\<close>

theorem page_result_arithmetic:
  fixes D :: deps and E :: env and q :: query and w :: world and r :: response
    and req :: request
  defines "built \<equiv> \<lambda>k v. \<exists>q' rs n (p::rat).
      cacheKey D q' = k \<and> pageSize_of D q' = Fin p \<and>
      v = JObj [(''recipes'', JArr (map recipe_json rs)),
                (''totalRecipes'', JNum (of_nat n)),
                (''totalPages'', num_json (totalPages_of (Fin (of_nat n)) (Fin p))),
                (''currentPage'', page_json (page_of q'))]
      \<and> is_integer p \<and> 1 \<le> p \<and> p \<le> 100 \<and> of_nat (length rs) \<le> p"
  shows "(fst (cache_check E (cacheKey D q) w) = None \<and>
          fst (list_recipes D E q w) = Sent r \<and> status r = 200
          \<longrightarrow> (\<exists>rs n p f.
                 body r =
                   JObj [(''recipes'', JArr (map recipe_json rs)),
                         (''totalRecipes'', JNum (of_nat n)),
                         (''totalPages'', num_json (totalPages_of (Fin (of_nat n)) (Fin p))),
                         (''currentPage'', page_json (page_of q))]
               \<and> pageSize_of D q = Fin p \<and> is_integer p \<and> 1 \<le> p \<and> p \<le> 100
               \<and> of_nat (length rs) \<le> p
               \<and> build_query D (search_of q) (difficulty_of q) = Inr f
               \<and> n = length (filter (matches D f) (docs w))))
       \<and> (\<forall>n p. n < 2 ^ 47 \<and> is_integer p \<and> 1 \<le> p \<and> p \<le> 100
             \<longrightarrow> totalPages_of (Fin (of_nat n)) (Fin p) = Fin (of_int \<lceil>of_nat n / p\<rceil>))
       \<and> ((\<forall>k v t. cache w k = Some (JsonText v, t) \<longrightarrow> built k v) \<and>
          fst (list_recipes D E q w) = Sent r \<and> status r = 200
          \<longrightarrow> built (cacheKey D q) (body r))
       \<and> ((\<forall>k v t. cache w k = Some (JsonText v, t) \<longrightarrow> built k v)
          \<longrightarrow> (\<forall>k v t. cache (snd (serve D E req w)) k = Some (JsonText v, t) \<longrightarrow> built k v))
       \<and> totalPages_of (Fin 0) (Fin 10) = Fin 0
       \<and> totalPages_of (Fin 25) (Fin 10) = Fin 3"
proof (intro conjI impI allI)
  assume h: "fst (cache_check E (cacheKey D q) w) = None \<and>
          fst (list_recipes D E q w) = Sent r \<and> status r = 200"
  then have miss: "fst (cache_check E (cacheKey D q) w) = None"
    and sent: "fst (list_recipes D E q w) = Sent r" and ok: "status r = 200"
    by simp_all
  from list_recipes_from_store [OF miss sent ok] obtain f results where
    f: "build_query D (search_of q) (difficulty_of q) = Inr f"
    and sa: "store_answer D E (list_pipeline D q f) (docs w) = Inr results"
    and r: "r = \<lparr> status = 200, body = cacheValue_of D q results \<rparr>"
    by blast
  from cacheValue_shape [OF sa] r f
  show "\<exists>rs n p f.
                 body r =
                   JObj [(''recipes'', JArr (map recipe_json rs)),
                         (''totalRecipes'', JNum (of_nat n)),
                         (''totalPages'', num_json (totalPages_of (Fin (of_nat n)) (Fin p))),
                         (''currentPage'', page_json (page_of q))]
               \<and> pageSize_of D q = Fin p \<and> is_integer p \<and> 1 \<le> p \<and> p \<le> 100
               \<and> of_nat (length rs) \<le> p
               \<and> build_query D (search_of q) (difficulty_of q) = Inr f
               \<and> n = length (filter (matches D f) (docs w))"
    by auto
next
  fix n :: nat and p :: rat
  assume "n < 2 ^ 47 \<and> is_integer p \<and> 1 \<le> p \<and> p \<le> 100"
  then have "n < 2 ^ 47" "is_integer p" "1 \<le> p" "p \<le> 100"
    by blast+
  then show "totalPages_of (Fin (of_nat n)) (Fin p) = Fin (of_int \<lceil>of_nat n / p\<rceil>)"
    by (rule totalPages_of_count)
next
  assume h: "(\<forall>k v t. cache w k = Some (JsonText v, t) \<longrightarrow> built k v) \<and>
          fst (list_recipes D E q w) = Sent r \<and> status r = 200"
  then have inv: "\<And>k v t. cache w k = Some (JsonText v, t) \<Longrightarrow> built k v"
    and sent: "fst (list_recipes D E q w) = Sent r" and ok: "status r = 200"
    by blast+
  from list_recipes_Sent_build [OF sent] obtain f where
    f: "build_query D (search_of q) (difficulty_of q) = Inr f"
    by blast
  show "built (cacheKey D q) (body r)"
  proof (cases "fst (cache_check E (cacheKey D q) w)")
    case None
    from list_recipes_from_store [OF None sent ok] obtain f results where
      sa: "store_answer D E (list_pipeline D q f) (docs w) = Inr results"
      and r: "r = \<lparr> status = 200, body = cacheValue_of D q results \<rparr>"
      by blast
    from cacheValue_shape [OF sa] obtain rs p where
      "cacheValue_of D q results =
             JObj [(''recipes'', JArr (map recipe_json rs)),
                   (''totalRecipes'', JNum (of_nat (length (filter (matches D f) (docs w))))),
                   (''totalPages'',
                    num_json (totalPages_of
                      (Fin (of_nat (length (filter (matches D f) (docs w))))) (Fin p))),
                   (''currentPage'', page_json (page_of q))]"
      "pageSize_of D q = Fin p" "is_integer p" "1 \<le> p" "p \<le> 100" "of_nat (length rs) \<le> p"
      by blast
    with r show ?thesis
      unfolding built_def by (intro exI [of _ q] exI [of _ rs] exI [of _ p]
          exI [of _ "length (filter (matches D f) (docs w))"]) simp
  next
    case (Some v)
    then have cc: "cache_check E (cacheKey D q) w =
        (Some v, snd (cache_check E (cacheKey D q) w))"
      by (simp add: prod_eq_iff)
    from cache_check_Some [OF cc] have "live E w (cacheKey D q) = Some (JsonText v)"
      by simp
    then obtain t where "cache w (cacheKey D q) = Some (JsonText v, t)"
      by (auto simp: live_def split: option.splits if_splits)
    from inv [OF this] have "built (cacheKey D q) v" .
    with list_recipes_hit [OF f cc] sent show ?thesis
      by (auto simp: send_def)
  qed
next
  fix k v t
  assume inv: "\<forall>k v t. cache w k = Some (JsonText v, t) \<longrightarrow> built k v"
    and c: "cache (snd (serve D E req w)) k = Some (JsonText v, t)"
  from serve_keyed [OF c] show "built k v"
  proof
    assume "cache w k = Some (JsonText v, t)"
    with inv show ?thesis
      by blast
  next
    assume "\<exists>q f results. req = GetRecipes q \<and>
      build_query D (search_of q) (difficulty_of q) = Inr f \<and>
      store_answer D E (list_pipeline D q f) (docs w) = Inr results \<and>
      k = cacheKey D q \<and>
      (JsonText v, t) = (JsonText (cacheValue_of D q results), now E + 3600)"
    then obtain q' f results where
      sa: "store_answer D E (list_pipeline D q' f) (docs w) = Inr results"
      and k: "k = cacheKey D q'"
      and v: "v = cacheValue_of D q' results"
      by auto
    from cacheValue_shape [OF sa] obtain rs p where
      "cacheValue_of D q' results =
             JObj [(''recipes'', JArr (map recipe_json rs)),
                   (''totalRecipes'', JNum (of_nat (length (filter (matches D f) (docs w))))),
                   (''totalPages'',
                    num_json (totalPages_of
                      (Fin (of_nat (length (filter (matches D f) (docs w))))) (Fin p))),
                   (''currentPage'', page_json (page_of q'))]"
      "pageSize_of D q' = Fin p" "is_integer p" "1 \<le> p" "p \<le> 100" "of_nat (length rs) \<le> p"
      by blast
    with k v show ?thesis
      unfolding built_def by (intro exI [of _ q'] exI [of _ rs] exI [of _ p]
          exI [of _ "length (filter (matches D f) (docs w))"]) simp
  qed
next
  show "totalPages_of (Fin 0) (Fin 10) = Fin 0"
    using totalPages_examples by simp
next
  show "totalPages_of (Fin 25) (Fin 10) = Fin 3"
    using totalPages_examples by simp
qed

theorem page_result_arithmetic_witness:
  "fst (list_recipes plain quiet second_page pantry) =
     Sent \<lparr> status = 200, body = samosa_page \<rparr>
   \<and> (\<exists>rs n p f.
          samosa_page =
              JObj [(''recipes'', JArr (map recipe_json rs)),
                    (''totalRecipes'', JNum (of_nat n)),
                    (''totalPages'', num_json (totalPages_of (Fin (of_nat n)) (Fin p))),
                    (''currentPage'', page_json (page_of second_page))]
          \<and> pageSize_of plain second_page = Fin p \<and> is_integer p \<and> 1 \<le> p \<and> p \<le> 100
          \<and> of_nat (length rs) \<le> p
          \<and> build_query plain (search_of second_page) (difficulty_of second_page) = Inr f
          \<and> n = length (filter (matches plain f) (docs pantry)))
   \<and> totalPages_of (Fin (of_nat 25)) (Fin 10) = Fin (of_int \<lceil>of_nat 25 / (10::rat)\<rceil>)"
proof -
  have h: "fst (cache_check quiet (cacheKey plain second_page) pantry) = None \<and>
      fst (list_recipes plain quiet second_page pantry) =
        Sent \<lparr> status = 200, body = samosa_page \<rparr> \<and>
      status \<lparr> status = 200, body = samosa_page \<rparr> = 200"
    using pantry_miss pantry_page by simp
  note th = page_result_arithmetic [where D = plain and E = quiet and q = second_page
      and w = pantry and r = "\<lparr> status = 200, body = samosa_page \<rparr>" and req = GetHealth]
  note built = th [THEN conjunct1, THEN mp, OF h]
  have "(25::nat) < 2 ^ 47 \<and> is_integer 10 \<and> (1::rat) \<le> 10 \<and> (10::rat) \<le> 100"
    by (simp add: is_integer_def)
  note pages = th [THEN conjunct2, THEN conjunct1, rule_format, OF this]
  from built pantry_page pages show ?thesis
    by simp
qed

text \<open>
  C6 as stated fails on a hit. The key does not escape \<open>&\<close> and \<open>=\<close>, so the two requests
  of the larder have one key. The first, with page size 2, is answered from the store and
  cached; the second, with page size 1, is then served that page result: two recipes,
  and \<open>totalPages\<close> 1 where the ceiling of 2 / 1 is 2.
\<close>

theorem page_result_collision_counterexample:
  "cacheKey plain narrow = cacheKey plain wide
   \<and> pageSize_of plain wide = Fin 2
   \<and> pageSize_of plain narrow = Fin 1
   \<and> fst (list_recipes plain quiet wide larder) = Sent \<lparr> status = 200, body = wide_page \<rparr>
   \<and> fst (list_recipes plain quiet narrow (snd (list_recipes plain quiet wide larder))) =
       Sent \<lparr> status = 200, body = wide_page \<rparr>
   \<and> property wide_page ''recipes'' =
       Some (JArr [recipe_json
                     (dish ''65f0c0ffee65f0c0ffee0022'' ''Bread &pageSize=1&search= butter'' []
                        ''easy''),
                   recipe_json
                     (dish ''65f0c0ffee65f0c0ffee0021'' ''Fish &pageSize=1&search= chips'' []
                        ''easy'')])
   \<and> property wide_page ''totalRecipes'' = Some (JNum 2)
   \<and> property wide_page ''totalPages'' = Some (JNum 1)
   \<and> totalPages_of (Fin 2) (Fin 1) = Fin 2"
  by code_simp
section \<open>The store query of a cache miss\<close>

text \<open>
  C7. On a cache miss whose patterns compile, the handler issues one aggregation to the
  store. Its filter matches the search parameter (a string, else the empty text), as a
  regular expression with the flag \<open>i\<close>, against the title or the name of an ingredient,
  and the difficulty parameter likewise, as a further condition, when it is not empty.
  The matching documents are sorted by title ascending; \<open>(Number(page) - 1) * pageSize\<close>,
  as the doubles compute it, is the number skipped, and \<open>pageSize\<close> documents are kept:
  for an integer page \<open>a\<close> from 1 on with \<open>(a - 1) * pageSize\<close> below \<open>2^53\<close> these are
  \<open>(a - 1) * pageSize\<close> documents, and for any page the rounded product when it is an
  integer the store takes. The count is that of all matching documents.
\<close>

theorem list_query_issued:
  fixes D :: deps and E :: env and q :: query and w :: world
  defines "search \<equiv> (case q_search q of Some (QStr s) \<Rightarrow> s | _ \<Rightarrow> [])"
      and "diff \<equiv> (case q_difficulty q of Some (QStr s) \<Rightarrow> s | _ \<Rightarrow> [])"
      and "page \<equiv> (case q_page q of None \<Rightarrow> Fin 1 | Some v \<Rightarrow> ToNumber D v)"
      and "pageSize \<equiv> Math_min (js_or (Number_opt D (q_pageSize q)) (Fin 10)) (Fin 100)"
  defines "f \<equiv>
        (if diff = [] then []
         else [Field (Regex ''difficulty'' \<lparr>source = diff, flags = ''i''\<rparr>)]) @
        [Or [Regex ''title'' \<lparr>source = search, flags = ''i''\<rparr>,
             Regex ''ingredients.name'' \<lparr>source = search, flags = ''i''\<rparr>]]"
  defines "stages \<equiv>
        \<lparr> p_match = f,
          p_recipes =
            [Sort ''title'' 1,
             Skip (js_mul (js_sub page (Fin 1)) pageSize),
             Limit pageSize,
             Project [''title'', ''ingredients'', ''utensils'', ''difficulty'',
                      ''total time'', ''instructions'']],
          p_totalCount = ''count'' \<rparr>"
  assumes compile: "RegExp_error D search = None"
      and compile': "diff = [] \<or> RegExp_error D diff = None"
      and miss: "fst (cache_check E (cacheKey D q) w) = None"
  shows "(\<exists>cs. calls (snd (list_recipes D E q w)) =
             calls w @ [RedisGet (cacheKey D q), Aggregate stages] @ cs
           \<and> (cs = [] \<or> (\<exists>v. cs = [RedisSet (cacheKey D q) v 3600])))
       \<and> (\<forall>r. matches D f r \<longleftrightarrow>
             (diff = [] \<or>
              (\<exists>x. difficulty (content r) = Some x \<and>
                   regex_match D \<lparr>source = diff, flags = ''i''\<rparr> x))
             \<and> ((\<exists>t. title (content r) = Some t \<and>
                      regex_match D \<lparr>source = search, flags = ''i''\<rparr> t)
                \<or> (\<exists>is i. ingredients (content r) = Some is \<and> i \<in> set is \<and>
                      regex_match D \<lparr>source = search, flags = ''i''\<rparr> (name i))))
       \<and> (\<forall>a b ds.
             page = Fin a \<and> pageSize = Fin b \<and>
             is_integer a \<and> is_integer b \<and> 1 \<le> a \<and> 1 \<le> b \<and> (a - 1) * b < 2 ^ 53 \<longrightarrow>
             run_pipeline D stages ds =
               Inr [\<lparr> out_recipes =
                        map (project [''title'', ''ingredients'', ''utensils'',
                                      ''difficulty'', ''total time'', ''instructions''])
                          (take (nat \<lfloor>b\<rfloor>) (drop (nat \<lfloor>(a - 1) * b\<rfloor>)
                             (sort_key (\<lambda>r. title (content r))
                                (filter (matches D f) ds)))),
                      out_totalCount =
                        (if filter (matches D f) ds = [] then []
                         else [(''count'', length (filter (matches D f) ds))]) \<rparr>])
       \<and> (\<forall>s b ds.
             js_mul (js_sub page (Fin 1)) pageSize = Fin s \<and> pageSize = Fin b \<and>
             is_integer s \<and> 0 \<le> s \<and> s < 2 ^ 63 \<and> is_integer b \<and> 1 \<le> b \<longrightarrow>
             run_pipeline D stages ds =
               Inr [\<lparr> out_recipes =
                        map (project [''title'', ''ingredients'', ''utensils'',
                                      ''difficulty'', ''total time'', ''instructions''])
                          (take (nat \<lfloor>b\<rfloor>) (drop (nat \<lfloor>s\<rfloor>)
                             (sort_key (\<lambda>r. title (content r))
                                (filter (matches D f) ds)))),
                      out_totalCount =
                        (if filter (matches D f) ds = [] then []
                         else [(''count'', length (filter (matches D f) ds))]) \<rparr>])
       \<and> (\<forall>ds results.
             run_pipeline D stages ds = Inr results \<longrightarrow>
             sorted (map (\<lambda>r. title (content r)) (recipes_of results)) \<and>
             totalRecipes_of results = Fin (of_nat (length (filter (matches D f) ds))))"
proof -
  have s: "search_of q = search"
    unfolding search_def by (rule search_of_raw)
  have d: "difficulty_of q = diff"
    unfolding diff_def by (rule difficulty_of_raw)
  have p: "page_number D (page_of q) = page"
    unfolding page_def by (rule page_number_raw)
  have z: "pageSize_of D q = pageSize"
    unfolding pageSize_def by (rule pageSize_of_def)
  have build: "build_query D (search_of q) (difficulty_of q) = Inr f"
    unfolding s d f_def by (rule build_query_compiles [OF compile compile'])
  have st: "list_pipeline D q f = stages"
    unfolding stages_def list_pipeline_def p z ..
  show ?thesis
  proof (intro conjI allI impI)
    show "\<exists>cs. calls (snd (list_recipes D E q w)) =
             calls w @ [RedisGet (cacheKey D q), Aggregate stages] @ cs
           \<and> (cs = [] \<or> (\<exists>v. cs = [RedisSet (cacheKey D q) v 3600]))"
      using calls_list_recipes_miss [OF build miss] by (simp only: st)
  next
    fix r
    from matches_built [OF build, of r]
    show "matches D f r \<longleftrightarrow>
             (diff = [] \<or>
              (\<exists>x. difficulty (content r) = Some x \<and>
                   regex_match D \<lparr>source = diff, flags = ''i''\<rparr> x))
             \<and> ((\<exists>t. title (content r) = Some t \<and>
                      regex_match D \<lparr>source = search, flags = ''i''\<rparr> t)
                \<or> (\<exists>is i. ingredients (content r) = Some is \<and> i \<in> set is \<and>
                      regex_match D \<lparr>source = search, flags = ''i''\<rparr> (name i)))"
      by (simp only: s d)
  next
    fix a b ds
    assume "page = Fin a \<and> pageSize = Fin b \<and>
             is_integer a \<and> is_integer b \<and> 1 \<le> a \<and> 1 \<le> b \<and> (a - 1) * b < 2 ^ 53"
    then have "page_number D (page_of q) = Fin a" "pageSize_of D q = Fin b"
      "is_integer a" "is_integer b" "1 \<le> a" "1 \<le> b" "(a - 1) * b < 2 ^ 53"
      unfolding p z by blast+
    from run_pipeline_valid [OF this, of f ds]
    show "run_pipeline D stages ds =
               Inr [\<lparr> out_recipes =
                        map (project [''title'', ''ingredients'', ''utensils'',
                                      ''difficulty'', ''total time'', ''instructions''])
                          (take (nat \<lfloor>b\<rfloor>) (drop (nat \<lfloor>(a - 1) * b\<rfloor>)
                             (sort_key (\<lambda>r. title (content r))
                                (filter (matches D f) ds)))),
                      out_totalCount =
                        (if filter (matches D f) ds = [] then []
                         else [(''count'', length (filter (matches D f) ds))]) \<rparr>]"
      by (simp only: st)
  next
    fix s' b ds
    assume "js_mul (js_sub page (Fin 1)) pageSize = Fin s' \<and> pageSize = Fin b \<and>
             is_integer s' \<and> 0 \<le> s' \<and> s' < 2 ^ 63 \<and> is_integer b \<and> 1 \<le> b"
    then have
      "js_mul (js_sub (page_number D (page_of q)) (Fin 1)) (pageSize_of D q) = Fin s'"
      "pageSize_of D q = Fin b" "is_integer s'" "0 \<le> s'" "s' < 2 ^ 63" "is_integer b" "1 \<le> b"
      unfolding p z by blast+
    from run_pipeline_skip [OF this, of f ds]
    show "run_pipeline D stages ds =
               Inr [\<lparr> out_recipes =
                        map (project [''title'', ''ingredients'', ''utensils'',
                                      ''difficulty'', ''total time'', ''instructions''])
                          (take (nat \<lfloor>b\<rfloor>) (drop (nat \<lfloor>s'\<rfloor>)
                             (sort_key (\<lambda>r. title (content r))
                                (filter (matches D f) ds)))),
                      out_totalCount =
                        (if filter (matches D f) ds = [] then []
                         else [(''count'', length (filter (matches D f) ds))]) \<rparr>]"
      by (simp only: st)
  next
    fix ds results
    assume "run_pipeline D stages ds = Inr results"
    then have "run_pipeline D (list_pipeline D q f) ds = Inr results"
      by (simp only: st)
    from run_pipeline_sorted_counted [OF this]
    show "sorted (map (\<lambda>r. title (content r)) (recipes_of results))"
      by simp
  next
    fix ds results
    assume "run_pipeline D stages ds = Inr results"
    then have "run_pipeline D (list_pipeline D q f) ds = Inr results"
      by (simp only: st)
    from run_pipeline_sorted_counted [OF this]
    show "totalRecipes_of results = Fin (of_nat (length (filter (matches D f) ds)))"
      by simp
  qed
qed


lemma second_page_read:
  "(case q_search second_page of Some (QStr s) \<Rightarrow> s | _ \<Rightarrow> []) = ''sa''"
  "(case q_difficulty second_page of Some (QStr s) \<Rightarrow> s | _ \<Rightarrow> []) = ''EASY''"
  "(case q_page second_page of None \<Rightarrow> Fin 1 | Some v \<Rightarrow> ToNumber plain v) = Fin 2"
  "Math_min (js_or (Number_opt plain (q_pageSize second_page)) (Fin 10)) (Fin 100) = Fin 2"
  by code_simp+

lemma easy_sa_built:
  "(if ''EASY'' = [] then []
    else [Field (Regex ''difficulty'' \<lparr>source = ''EASY'', flags = ''i''\<rparr>)]) @
   [Or [Regex ''title'' \<lparr>source = ''sa'', flags = ''i''\<rparr>,
        Regex ''ingredients.name'' \<lparr>source = ''sa'', flags = ''i''\<rparr>]] = easy_sa"
  by (simp add: easy_sa_def)

lemma easy_sa_stages:
  "\<lparr> p_match = easy_sa,
     p_recipes =
       [Sort ''title'' 1, Skip (js_mul (js_sub (Fin 2) (Fin 1)) (Fin 2)), Limit (Fin 2),
        Project [''title'', ''ingredients'', ''utensils'', ''difficulty'', ''total time'',
                 ''instructions'']],
     p_totalCount = ''count'' \<rparr> = easy_sa_pipeline"
  by code_simp

lemma pantry_easy_sa:
  "filter (matches plain easy_sa) (docs pantry) = [toast, samosa, salad, pasta]"
  by code_simp

lemma pantry_sorted:
  "sort_key (\<lambda>r. title (content r)) [toast, samosa, salad, pasta] = [pasta, salad, samosa, toast]"
  by code_simp

lemma second_page_key:
  "cacheKey plain second_page = ''recipes:page=2&pageSize=2&search=sa&difficulty=EASY''"
  by code_simp

theorem list_query_issued_witness:
  "(\<exists>cs. calls (snd (list_recipes plain quiet second_page pantry)) =
          calls pantry @
          [RedisGet ''recipes:page=2&pageSize=2&search=sa&difficulty=EASY'',
           Aggregate easy_sa_pipeline] @ cs
        \<and> (cs = [] \<or>
           (\<exists>v. cs = [RedisSet ''recipes:page=2&pageSize=2&search=sa&difficulty=EASY'' v 3600])))
   \<and> run_pipeline plain easy_sa_pipeline (docs pantry) =
       Inr [\<lparr> out_recipes =
                map (project [''title'', ''ingredients'', ''utensils'', ''difficulty'',
                              ''total time'', ''instructions''])
                  [samosa, toast],
              out_totalCount = [(''count'', 4)] \<rparr>]"
proof -
  have c1: "RegExp_error plain ''sa'' = None"
    by (simp add: plain_def)
  have c2: "''EASY'' = [] \<or> RegExp_error plain ''EASY'' = None"
    by (simp add: plain_def)
  note th = list_query_issued [where D = plain and E = quiet and q = second_page and w = pantry,
      unfolded second_page_read easy_sa_built easy_sa_stages, OF c1 c2 pantry_miss]
  have hyp: "Fin 2 = Fin (2::rat) \<and> Fin 2 = Fin (2::rat) \<and> is_integer 2 \<and> is_integer 2 \<and>
      (1::rat) \<le> 2 \<and> (1::rat) \<le> 2 \<and> ((2::rat) - 1) * 2 < 2 ^ 53"
    by (simp add: is_integer_def)
  note page = th [THEN conjunct2, THEN conjunct2, THEN conjunct1, rule_format,
      of 2 2 "docs pantry", OF hyp, unfolded pantry_easy_sa pantry_sorted]
  note issued = th [THEN conjunct1, unfolded second_page_key]
  from page have "run_pipeline plain easy_sa_pipeline (docs pantry) =
       Inr [\<lparr> out_recipes =
                map (project [''title'', ''ingredients'', ''utensils'', ''difficulty'',
                              ''total time'', ''instructions''])
                  [samosa, toast],
              out_totalCount = [(''count'', 4)] \<rparr>]"
    by simp
  with issued show ?thesis
    by (rule conjI)
qed

text \<open>
  The skip of some pages that are no small integers: page 1.7 with page size 10 skips 7
  documents, with page size 90 the product is no integer, and page 9007199254740993 with
  page size 10 skips 90071992547409904.
\<close>

lemma skip_examples:
  "js_mul (js_sub (StringToNumber plain ''1.7'') (Fin 1)) (Fin 10) = Fin 7
   \<and> js_mul (js_sub (StringToNumber plain ''1.7'') (Fin 1)) (Fin 90) =
       Fin (8866461766385663 / 140737488355328)
   \<and> js_mul (js_sub (StringToNumber plain ''9007199254740993'') (Fin 1)) (Fin 10) =
       Fin 90071992547409904"
  by code_simp

section \<open>Failures of the cache and of the store\<close>


lemma console_cache_fill_error:
  "set_error E = Some m \<Longrightarrow> (''Redis set error:'', m) \<in> set (console (cache_fill E k v w))"
  by (simp add: cache_fill_error console_error_def)

lemma console_fetch_from_store:
  "set (console w) \<subseteq> set (console (snd (fetch_from_store D E q f w)))"
  by (cases "store_answer D E (list_pipeline D q f) (docs w)"; cases "set_error E")
     (auto simp: fetch_from_store_fails fetch_from_store_succeeds cache_fill_ok
        cache_fill_error console_error_def issue_def)

lemma fetch_from_store_response:
  "fst (fetch_from_store D E q f w) =
     (case store_answer D E (list_pipeline D q f) (docs w) of
        Inl e \<Rightarrow> send 500 (error_details ''Failed to fetch recipes'' e)
      | Inr results \<Rightarrow> send 200 (cacheValue_of D q results))"
  by (cases "store_answer D E (list_pipeline D q f) (docs w)")
     (simp_all add: fetch_from_store_fails fetch_from_store_succeeds)

lemma list_recipes_always_sent:
  assumes build: "build_query D (search_of q) (difficulty_of q) = Inr f"
  shows "\<exists>r. fst (list_recipes D E q w) = Sent r"
proof (cases "fst (cache_check E (cacheKey D q) w)")
  case None
  then have "cache_check E (cacheKey D q) w = (None, snd (cache_check E (cacheKey D q) w))"
    by (simp add: prod_eq_iff)
  from list_recipes_miss [OF build this] show ?thesis
    by (cases "store_answer D E (list_pipeline D q f)
                 (docs (snd (cache_check E (cacheKey D q) w)))")
       (simp_all add: fetch_from_store_response send_def)
next
  case (Some v)
  then have "cache_check E (cacheKey D q) w = (Some v, snd (cache_check E (cacheKey D q) w))"
    by (simp add: prod_eq_iff)
  from list_recipes_hit [OF build this] show ?thesis
    by (simp add: send_def)
qed

text \<open>
  C2. A failure of the cache never fails a list request. When the cache read fails, the
  handler logs it and answers from the store, with the page result the store gives; when
  the cache write fails, the handler logs it and still sends the page result. A failure of
  the store is answered with status 500 and a body of an error and its details.
\<close>

theorem cache_failures_are_soft:
  assumes build: "build_query D (search_of q) (difficulty_of q) = Inr f"
  shows "(\<exists>r. fst (list_recipes D E q w) = Sent r)
       \<and> (\<forall>m. get_error E = Some m \<longrightarrow>
             fst (list_recipes D E q w) =
               (case store_answer D E (list_pipeline D q f) (docs w) of
                  Inl e \<Rightarrow> send 500 (error_details ''Failed to fetch recipes'' e)
                | Inr results \<Rightarrow> send 200 (cacheValue_of D q results))
             \<and> (''Redis fetch error:'', m) \<in> set (console (snd (list_recipes D E q w))))
       \<and> (\<forall>m results.
             set_error E = Some m \<and> fst (cache_check E (cacheKey D q) w) = None \<and>
             store_answer D E (list_pipeline D q f) (docs w) = Inr results \<longrightarrow>
             fst (list_recipes D E q w) = send 200 (cacheValue_of D q results)
             \<and> (''Redis set error:'', m) \<in> set (console (snd (list_recipes D E q w))))
       \<and> (\<forall>e. fst (cache_check E (cacheKey D q) w) = None \<and>
              store_answer D E (list_pipeline D q f) (docs w) = Inl e \<longrightarrow>
              fst (list_recipes D E q w) =
                send 500 (error_details ''Failed to fetch recipes'' e))"
proof (intro conjI allI impI)
  show "\<exists>r. fst (list_recipes D E q w) = Sent r"
    by (rule list_recipes_always_sent [OF build])
next
  fix m assume g: "get_error E = Some m"
  define w1 where "w1 = console_error ''Redis fetch error:'' m (issue (RedisGet (cacheKey D q)) w)"
  have d: "docs w1 = docs w"
    by (simp add: w1_def console_error_def issue_def)
  from cache_check_error [OF g] have "cache_check E (cacheKey D q) w = (None, w1)"
    by (simp add: w1_def)
  from list_recipes_miss [OF build this] have lr:
    "list_recipes D E q w = fetch_from_store D E q f w1" .
  with d show "fst (list_recipes D E q w) =
               (case store_answer D E (list_pipeline D q f) (docs w) of
                  Inl e \<Rightarrow> send 500 (error_details ''Failed to fetch recipes'' e)
                | Inr results \<Rightarrow> send 200 (cacheValue_of D q results))"
    by (simp add: fetch_from_store_response)
  have "(''Redis fetch error:'', m) \<in> set (console w1)"
    by (simp add: w1_def console_error_def issue_def)
  with console_fetch_from_store [of w1 D E q f] lr
  show "(''Redis fetch error:'', m) \<in> set (console (snd (list_recipes D E q w)))"
    by auto
next
  fix m results
  assume h: "set_error E = Some m \<and> fst (cache_check E (cacheKey D q) w) = None \<and>
             store_answer D E (list_pipeline D q f) (docs w) = Inr results"
  define w1 where "w1 = snd (cache_check E (cacheKey D q) w)"
  with h have cc: "cache_check E (cacheKey D q) w = (None, w1)"
    by (simp add: prod_eq_iff)
  from cache_check_None [OF cc] h
  have sa: "store_answer D E (list_pipeline D q f) (docs w1) = Inr results"
    by simp
  from list_recipes_miss [OF build cc] fetch_from_store_succeeds [OF sa]
  have lr: "list_recipes D E q w =
     (send 200 (cacheValue_of D q results),
      cache_fill E (cacheKey D q) (cacheValue_of D q results)
        (issue (Aggregate (list_pipeline D q f)) w1))"
    by simp
  then show "fst (list_recipes D E q w) = send 200 (cacheValue_of D q results)"
    by simp
  from h have "set_error E = Some m"
    by simp
  from console_cache_fill_error [OF this] lr
  show "(''Redis set error:'', m) \<in> set (console (snd (list_recipes D E q w)))"
    by simp
next
  fix e
  assume h: "fst (cache_check E (cacheKey D q) w) = None \<and>
              store_answer D E (list_pipeline D q f) (docs w) = Inl e"
  define w1 where "w1 = snd (cache_check E (cacheKey D q) w)"
  with h have cc: "cache_check E (cacheKey D q) w = (None, w1)"
    by (simp add: prod_eq_iff)
  from cache_check_None [OF cc] h
  have sa: "store_answer D E (list_pipeline D q f) (docs w1) = Inl e"
    by simp
  from list_recipes_miss [OF build cc] fetch_from_store_fails [OF sa]
  show "fst (list_recipes D E q w) = send 500 (error_details ''Failed to fetch recipes'' e)"
    by simp
qed

theorem cache_failures_are_soft_witness:
  "fst (list_recipes plain (quiet\<lparr>get_error := Some ''ECONNREFUSED''\<rparr>) bare kitchen) =
     Sent \<lparr> status = 200, body = soup_page \<rparr>
   \<and> (''Redis fetch error:'', ''ECONNREFUSED'') \<in>
       set (console (snd (list_recipes plain (quiet\<lparr>get_error := Some ''ECONNREFUSED''\<rparr>)
                            bare kitchen)))"
proof -
  have g: "get_error (quiet\<lparr>get_error := Some ''ECONNREFUSED''\<rparr>) = Some ''ECONNREFUSED''"
    by simp
  have s: "(case store_answer plain (quiet\<lparr>get_error := Some ''ECONNREFUSED''\<rparr>)
                (list_pipeline plain bare
                   [Or [Regex ''title'' \<lparr>source = [], flags = ''i''\<rparr>,
                        Regex ''ingredients.name'' \<lparr>source = [], flags = ''i''\<rparr>]])
                (docs kitchen) of
              Inl e \<Rightarrow> send 500 (error_details ''Failed to fetch recipes'' e)
            | Inr results \<Rightarrow> send 200 (cacheValue_of plain bare results)) =
           Sent \<lparr> status = 200, body = soup_page \<rparr>"
    by code_simp
  from cache_failures_are_soft [OF bare_query,
      of "quiet\<lparr>get_error := Some ''ECONNREFUSED''\<rparr>" kitchen] g s
  show ?thesis
    by simp
qed

section \<open>A miss, then a hit\<close>


lemma live_after_fill:
  "set_error E = None \<Longrightarrow> now E' < now E + 3600 \<Longrightarrow>
   live E' (cache_fill E k v w) k = Some (JsonText v)"
  by (simp add: cache_fill_ok live_def issue_def)

lemma list_recipes_served_from_cache:
  assumes "build_query D (search_of q) (difficulty_of q) = Inr f"
      and "get_error E = None"
      and "live E w (cacheKey D q) = Some (JsonText v)"
  shows "list_recipes D E q w = (send 200 v, issue (RedisGet (cacheKey D q)) w)"
  using list_recipes_hit [OF assms(1) cache_check_hit [OF assms(2,3)]] .

text \<open>
  C5. A list request that misses the cache and is answered from the store, followed
  within the time to live by the same request, gets the same response again; the second
  one is served from the cache, and the only call it issues is the read of the cache. On
  every hit the cached value is parsed and sent, and no call goes to the store.
\<close>

theorem miss_then_hit:
  "(fst (cache_check E (cacheKey D q) w) = None \<and> fst (list_recipes D E q w) = Sent r \<and>
    status r = 200 \<and> set_error E = None \<and> get_error E' = None \<and> now E' < now E + 3600
    \<longrightarrow> list_recipes D E' q (snd (list_recipes D E q w)) =
          (Sent r, issue (RedisGet (cacheKey D q)) (snd (list_recipes D E q w))))
   \<and> (build_query D (search_of q) (difficulty_of q) = Inr f \<and> get_error E = None \<and>
      live E w (cacheKey D q) = Some (JsonText v)
      \<longrightarrow> list_recipes D E q w = (send 200 v, issue (RedisGet (cacheKey D q)) w))"
proof (intro conjI impI)
  assume h: "fst (cache_check E (cacheKey D q) w) = None \<and>
    fst (list_recipes D E q w) = Sent r \<and> status r = 200 \<and> set_error E = None \<and>
    get_error E' = None \<and> now E' < now E + 3600"
  then have miss: "fst (cache_check E (cacheKey D q) w) = None"
    and sent: "fst (list_recipes D E q w) = Sent r" and ok: "status r = 200"
    and se: "set_error E = None" and ge: "get_error E' = None"
    and tm: "now E' < now E + 3600"
    by simp_all
  from list_recipes_from_store [OF miss sent ok] obtain f results w1 where
    f: "build_query D (search_of q) (difficulty_of q) = Inr f"
    and r: "r = \<lparr> status = 200, body = cacheValue_of D q results \<rparr>"
    and w2: "snd (list_recipes D E q w) =
             cache_fill E (cacheKey D q) (cacheValue_of D q results)
               (issue (Aggregate (list_pipeline D q f)) w1)"
    by blast
  from live_after_fill [OF se tm] w2
  have "live E' (snd (list_recipes D E q w)) (cacheKey D q) =
          Some (JsonText (cacheValue_of D q results))"
    by simp
  from list_recipes_served_from_cache [OF f ge this] r
  show "list_recipes D E' q (snd (list_recipes D E q w)) =
          (Sent r, issue (RedisGet (cacheKey D q)) (snd (list_recipes D E q w)))"
    by (simp add: send_def)
next
  assume "build_query D (search_of q) (difficulty_of q) = Inr f \<and> get_error E = None \<and>
      live E w (cacheKey D q) = Some (JsonText v)"
  then show "list_recipes D E q w = (send 200 v, issue (RedisGet (cacheKey D q)) w)"
    by (intro list_recipes_served_from_cache) simp_all
qed

theorem miss_then_hit_witness:
  "list_recipes plain quiet bare (snd (list_recipes plain quiet bare kitchen)) =
     (Sent \<lparr> status = 200, body = soup_page \<rparr>,
      issue (RedisGet (cacheKey plain bare)) (snd (list_recipes plain quiet bare kitchen)))"
proof -
  have "set_error quiet = None" and "get_error quiet = None" and "now quiet < now quiet + 3600"
    by (simp_all add: quiet_def)
  with miss_then_hit [of quiet plain bare kitchen "\<lparr> status = 200, body = soup_page \<rparr>" quiet]
    kitchen_miss kitchen_page
  show ?thesis
    by simp
qed

section \<open>The current page\<close>

lemma property_page_result:
  "property (page_result rs t p c) ''currentPage'' = Some (page_json c)"
  by (simp add: page_result_def)

lemma page_json_page_of:
  "page_json (page_of q) = (case q_page q of None \<Rightarrow> JNum 1 | Some v \<Rightarrow> qval_json v)"
  by (simp add: page_of_def split: option.split)

lemma cache_after_fill:
  "set_error E = None \<Longrightarrow> cache (cache_fill E k v w) k = Some (JsonText v, now E + 3600)"
  by (simp add: cache_fill_ok issue_def)

text \<open>
  C10, as the code has it. In a page result built from the store, \<open>currentPage\<close> is the
  raw \<open>page\<close> parameter as supplied, neither parsed nor checked (the string itself when a
  string was given), and the number 1 when the parameter is absent; that value is what
  is cached; the skip of the aggregation is computed from \<open>Number(page)\<close>. When that skip
  is not an integer from 0 to \<open>2^63 - 1\<close>, a request that misses the cache and reaches the
  store gets the 500 response with the message of the store, and nothing is cached. A
  request served from the cache gets the cached value, whatever its \<open>currentPage\<close>.
\<close>

theorem currentPage_echo:
  "(fst (cache_check E (cacheKey D q) w) = None \<and> fst (list_recipes D E q w) = Sent r \<and>
    status r = 200
    \<longrightarrow> property (body r) ''currentPage'' =
            Some (case q_page q of None \<Rightarrow> JNum 1 | Some v \<Rightarrow> qval_json v)
        \<and> (\<forall>s. q_page q = Some (QStr s) \<longrightarrow>
               property (body r) ''currentPage'' = Some (JStr s))
        \<and> (set_error E = None \<longrightarrow>
             cache (snd (list_recipes D E q w)) (cacheKey D q) =
               Some (JsonText (body r), now E + 3600))
        \<and> (\<exists>f. Aggregate (list_pipeline D q f) \<in> set (calls (snd (list_recipes D E q w))) \<and>
               p_recipes (list_pipeline D q f) ! 1 =
                 Skip (js_mul
                         (js_sub (case q_page q of None \<Rightarrow> Fin 1 | Some v \<Rightarrow> ToNumber D v)
                            (Fin 1))
                         (pageSize_of D q))))
   \<and> (build_query D (search_of q) (difficulty_of q) = Inr f \<and>
      fst (cache_check E (cacheKey D q) w) = None \<and> store_error E = None \<and>
      (\<forall>s. js_mul
              (js_sub (case q_page q of None \<Rightarrow> Fin 1 | Some v \<Rightarrow> ToNumber D v) (Fin 1))
              (pageSize_of D q) = Fin s
           \<longrightarrow> \<not> (is_integer s \<and> 0 \<le> s \<and> s < 2 ^ 63))
      \<longrightarrow> fst (list_recipes D E q w) =
            send 500
              (error_details ''Failed to fetch recipes'' ''invalid argument to $skip stage'')
          \<and> cache (snd (list_recipes D E q w)) = cache w)
   \<and> (build_query D (search_of q) (difficulty_of q) = Inr f \<and> get_error E = None \<and>
      live E w (cacheKey D q) = Some (JsonText v)
      \<longrightarrow> fst (list_recipes D E q w) = send 200 v)"
proof (intro conjI impI allI)
  assume h: "fst (cache_check E (cacheKey D q) w) = None \<and>
    fst (list_recipes D E q w) = Sent r \<and> status r = 200"
  then have miss: "fst (cache_check E (cacheKey D q) w) = None"
    and sent: "fst (list_recipes D E q w) = Sent r" and ok: "status r = 200"
    by simp_all
  from list_recipes_from_store [OF miss sent ok] obtain f results w1 where
    r: "r = \<lparr> status = 200, body = cacheValue_of D q results \<rparr>"
    by blast
  then show "property (body r) ''currentPage'' =
            Some (case q_page q of None \<Rightarrow> JNum 1 | Some v \<Rightarrow> qval_json v)"
    by (simp add: cacheValue_of_def property_page_result page_json_page_of)
next
  fix s
  assume h: "fst (cache_check E (cacheKey D q) w) = None \<and>
    fst (list_recipes D E q w) = Sent r \<and> status r = 200"
    and s: "q_page q = Some (QStr s)"
  from h have miss: "fst (cache_check E (cacheKey D q) w) = None"
    and sent: "fst (list_recipes D E q w) = Sent r" and ok: "status r = 200"
    by simp_all
  from list_recipes_from_store [OF miss sent ok] obtain f results w1 where
    r: "r = \<lparr> status = 200, body = cacheValue_of D q results \<rparr>"
    by blast
  with s show "property (body r) ''currentPage'' = Some (JStr s)"
    by (simp add: cacheValue_of_def property_page_result page_json_page_of)
next
  assume h: "fst (cache_check E (cacheKey D q) w) = None \<and>
    fst (list_recipes D E q w) = Sent r \<and> status r = 200"
    and se: "set_error E = None"
  from h have miss: "fst (cache_check E (cacheKey D q) w) = None"
    and sent: "fst (list_recipes D E q w) = Sent r" and ok: "status r = 200"
    by simp_all
  from list_recipes_from_store [OF miss sent ok] obtain f results w1 where
    r: "r = \<lparr> status = 200, body = cacheValue_of D q results \<rparr>"
    and w2: "snd (list_recipes D E q w) =
             cache_fill E (cacheKey D q) (cacheValue_of D q results)
               (issue (Aggregate (list_pipeline D q f)) w1)"
    by blast
  from cache_after_fill [OF se] r w2
  show "cache (snd (list_recipes D E q w)) (cacheKey D q) =
               Some (JsonText (body r), now E + 3600)"
    by simp
next
  assume h: "fst (cache_check E (cacheKey D q) w) = None \<and>
    fst (list_recipes D E q w) = Sent r \<and> status r = 200"
  then have miss: "fst (cache_check E (cacheKey D q) w) = None"
    and sent: "fst (list_recipes D E q w) = Sent r"
    by simp_all
  from list_recipes_Sent_build [OF sent] obtain f where
    f: "build_query D (search_of q) (difficulty_of q) = Inr f"
    by blast
  from calls_list_recipes_miss [OF f miss] obtain cs where
    "calls (snd (list_recipes D E q w)) =
       calls w @ [RedisGet (cacheKey D q), Aggregate (list_pipeline D q f)] @ cs"
    by blast
  then have "Aggregate (list_pipeline D q f) \<in> set (calls (snd (list_recipes D E q w)))"
    by simp
  moreover have "p_recipes (list_pipeline D q f) ! 1 =
                 Skip (js_mul
                         (js_sub (case q_page q of None \<Rightarrow> Fin 1 | Some v \<Rightarrow> ToNumber D v)
                            (Fin 1))
                         (pageSize_of D q))"
    by (simp add: list_pipeline_def page_of_def split: option.split)
  ultimately show "\<exists>f. Aggregate (list_pipeline D q f) \<in>
                         set (calls (snd (list_recipes D E q w))) \<and>
               p_recipes (list_pipeline D q f) ! 1 =
                 Skip (js_mul
                         (js_sub (case q_page q of None \<Rightarrow> Fin 1 | Some v \<Rightarrow> ToNumber D v)
                            (Fin 1))
                         (pageSize_of D q))"
    by blast
next
  assume h: "build_query D (search_of q) (difficulty_of q) = Inr f \<and>
      fst (cache_check E (cacheKey D q) w) = None \<and> store_error E = None \<and>
      (\<forall>s. js_mul
              (js_sub (case q_page q of None \<Rightarrow> Fin 1 | Some v \<Rightarrow> ToNumber D v) (Fin 1))
              (pageSize_of D q) = Fin s
           \<longrightarrow> \<not> (is_integer s \<and> 0 \<le> s \<and> s < 2 ^ 63))"
  then have "build_query D (search_of q) (difficulty_of q) = Inr f"
    "fst (cache_check E (cacheKey D q) w) = None" "store_error E = None"
    "\<forall>s. js_mul (js_sub (page_number D (page_of q)) (Fin 1)) (pageSize_of D q) = Fin s
          \<longrightarrow> \<not> (is_integer s \<and> 0 \<le> s \<and> s < 2 ^ 63)"
    unfolding page_number_raw by blast+
  from list_recipes_skip_rejected [OF this]
  show "fst (list_recipes D E q w) =
            send 500
              (error_details ''Failed to fetch recipes'' ''invalid argument to $skip stage'')"
    by (rule conjunct1)
next
  assume h: "build_query D (search_of q) (difficulty_of q) = Inr f \<and>
      fst (cache_check E (cacheKey D q) w) = None \<and> store_error E = None \<and>
      (\<forall>s. js_mul
              (js_sub (case q_page q of None \<Rightarrow> Fin 1 | Some v \<Rightarrow> ToNumber D v) (Fin 1))
              (pageSize_of D q) = Fin s
           \<longrightarrow> \<not> (is_integer s \<and> 0 \<le> s \<and> s < 2 ^ 63))"
  then have "build_query D (search_of q) (difficulty_of q) = Inr f"
    "fst (cache_check E (cacheKey D q) w) = None" "store_error E = None"
    "\<forall>s. js_mul (js_sub (page_number D (page_of q)) (Fin 1)) (pageSize_of D q) = Fin s
          \<longrightarrow> \<not> (is_integer s \<and> 0 \<le> s \<and> s < 2 ^ 63)"
    unfolding page_number_raw by blast+
  from list_recipes_skip_rejected [OF this]
  show "cache (snd (list_recipes D E q w)) = cache w"
    by (rule conjunct2)
next
  assume "build_query D (search_of q) (difficulty_of q) = Inr f \<and> get_error E = None \<and>
      live E w (cacheKey D q) = Some (JsonText v)"
  then have "list_recipes D E q w = (send 200 v, issue (RedisGet (cacheKey D q)) w)"
    by (intro list_recipes_served_from_cache) simp_all
  then show "fst (list_recipes D E q w) = send 200 v"
    by simp
qed


lemma page_one_miss:
  "fst (cache_check quiet (cacheKey plain (bare\<lparr>q_page := Some (QStr ''1'')\<rparr>)) kitchen) = None"
  by code_simp

lemma page_one_page:
  "fst (list_recipes plain quiet (bare\<lparr>q_page := Some (QStr ''1'')\<rparr>) kitchen) =
     Sent \<lparr> status = 200, body = soup_first \<rparr>"
  by code_simp

lemma page_one_key:
  "cacheKey plain (bare\<lparr>q_page := Some (QStr ''1'')\<rparr>) =
     ''recipes:page=1&pageSize=10&search=&difficulty=''"
  by code_simp

lemma page_zero_miss:
  "fst (cache_check quiet (cacheKey plain (bare\<lparr>q_page := Some (QStr ''0'')\<rparr>)) kitchen) = None"
  by code_simp

lemma page_zero_query:
  "build_query plain (search_of (bare\<lparr>q_page := Some (QStr ''0'')\<rparr>))
     (difficulty_of (bare\<lparr>q_page := Some (QStr ''0'')\<rparr>)) =
     Inr [Or [Regex ''title'' \<lparr>source = [], flags = ''i''\<rparr>,
              Regex ''ingredients.name'' \<lparr>source = [], flags = ''i''\<rparr>]]"
  by code_simp

lemma page_zero_skip:
  "js_mul
     (js_sub (case q_page (bare\<lparr>q_page := Some (QStr ''0'')\<rparr>) of
                None \<Rightarrow> Fin 1 | Some v \<Rightarrow> ToNumber plain v) (Fin 1))
     (pageSize_of plain (bare\<lparr>q_page := Some (QStr ''0'')\<rparr>)) = Fin (- 10)"
  by code_simp

theorem currentPage_echo_witness:
  "property soup_first ''currentPage'' = Some (JStr ''1'')
   \<and> cache (snd (list_recipes plain quiet (bare\<lparr>q_page := Some (QStr ''1'')\<rparr>) kitchen))
       ''recipes:page=1&pageSize=10&search=&difficulty='' = Some (JsonText soup_first, 3600)
   \<and> fst (list_recipes plain quiet (bare\<lparr>q_page := Some (QStr ''0'')\<rparr>) kitchen) =
       send 500
         (error_details ''Failed to fetch recipes'' ''invalid argument to $skip stage'')
   \<and> cache (snd (list_recipes plain quiet (bare\<lparr>q_page := Some (QStr ''0'')\<rparr>) kitchen)) =
       cache kitchen"
proof -
  have h1: "fst (cache_check quiet (cacheKey plain (bare\<lparr>q_page := Some (QStr ''1'')\<rparr>)) kitchen)
        = None \<and>
      fst (list_recipes plain quiet (bare\<lparr>q_page := Some (QStr ''1'')\<rparr>) kitchen) =
        Sent \<lparr> status = 200, body = soup_first \<rparr> \<and>
      status \<lparr> status = 200, body = soup_first \<rparr> = 200"
    using page_one_miss page_one_page by simp
  note echoed = currentPage_echo [where D = plain and E = quiet
      and q = "bare\<lparr>q_page := Some (QStr ''1'')\<rparr>" and w = kitchen
      and r = "\<lparr> status = 200, body = soup_first \<rparr>", THEN conjunct1, THEN mp, OF h1]
  have p: "q_page (bare\<lparr>q_page := Some (QStr ''1'')\<rparr>) = Some (QStr ''1'')"
    by simp
  from echoed [THEN conjunct2, THEN conjunct1, rule_format, OF p]
  have a: "property soup_first ''currentPage'' = Some (JStr ''1'')"
    by simp
  have "set_error quiet = None"
    by (simp add: quiet_def)
  from echoed [THEN conjunct2, THEN conjunct2, THEN conjunct1, rule_format, OF this]
  have b: "cache (snd (list_recipes plain quiet (bare\<lparr>q_page := Some (QStr ''1'')\<rparr>) kitchen))
       ''recipes:page=1&pageSize=10&search=&difficulty='' = Some (JsonText soup_first, 3600)"
    by (simp add: page_one_key quiet_def)
  have "\<forall>s. js_mul
          (js_sub (case q_page (bare\<lparr>q_page := Some (QStr ''0'')\<rparr>) of
                     None \<Rightarrow> Fin 1 | Some v \<Rightarrow> ToNumber plain v) (Fin 1))
          (pageSize_of plain (bare\<lparr>q_page := Some (QStr ''0'')\<rparr>)) = Fin s
        \<longrightarrow> \<not> (is_integer s \<and> 0 \<le> s \<and> s < 2 ^ 63)"
    unfolding page_zero_skip by simp
  moreover have "store_error quiet = None"
    by (simp add: quiet_def)
  ultimately have h0:
     "build_query plain (search_of (bare\<lparr>q_page := Some (QStr ''0'')\<rparr>))
        (difficulty_of (bare\<lparr>q_page := Some (QStr ''0'')\<rparr>)) =
        Inr [Or [Regex ''title'' \<lparr>source = [], flags = ''i''\<rparr>,
                 Regex ''ingredients.name'' \<lparr>source = [], flags = ''i''\<rparr>]] \<and>
      fst (cache_check quiet (cacheKey plain (bare\<lparr>q_page := Some (QStr ''0'')\<rparr>)) kitchen)
        = None \<and>
      store_error quiet = None \<and>
      (\<forall>s. js_mul
          (js_sub (case q_page (bare\<lparr>q_page := Some (QStr ''0'')\<rparr>) of
                     None \<Rightarrow> Fin 1 | Some v \<Rightarrow> ToNumber plain v) (Fin 1))
          (pageSize_of plain (bare\<lparr>q_page := Some (QStr ''0'')\<rparr>)) = Fin s
        \<longrightarrow> \<not> (is_integer s \<and> 0 \<le> s \<and> s < 2 ^ 63))"
    using page_zero_query page_zero_miss by (intro conjI)
  note rejected = currentPage_echo [where D = plain and E = quiet
      and q = "bare\<lparr>q_page := Some (QStr ''0'')\<rparr>" and w = kitchen
      and f = "[Or [Regex ''title'' \<lparr>source = [], flags = ''i''\<rparr>,
                    Regex ''ingredients.name'' \<lparr>source = [], flags = ''i''\<rparr>]]",
      THEN conjunct2, THEN conjunct1, THEN mp, OF h0]
  from a b rejected show ?thesis
    by (intro conjI) (erule conjunct1 conjunct2 | assumption)+
qed

text \<open>
  C10 as stated fails on a hit: the request without a page caches \<open>currentPage: 1\<close> under
  the key that the request with \<open>page=1\<close> builds too, and the latter is then answered with
  the number 1, not with the string it supplied. And neither \<open>page=0\<close> nor \<open>page=abc\<close> is
  echoed: the skip is \<open>-10\<close> for the one and NaN for the other, the store rejects it, and
  the answer is the 500 response.
\<close>

theorem currentPage_cached_counterexample:
  "q_page (bare\<lparr>q_page := Some (QStr ''1'')\<rparr>) = Some (QStr ''1'')
   \<and> fst (list_recipes plain quiet (bare\<lparr>q_page := Some (QStr ''1'')\<rparr>)
           (snd (list_recipes plain quiet bare kitchen))) =
       Sent \<lparr> status = 200, body = soup_page \<rparr>
   \<and> property soup_page ''currentPage'' = Some (JNum 1)
   \<and> JNum 1 \<noteq> qval_json (QStr ''1'')
   \<and> fst (list_recipes plain quiet (bare\<lparr>q_page := Some (QStr ''0'')\<rparr>) kitchen) =
       Sent \<lparr> status = 500,
              body = JObj [(''error'', JStr ''Failed to fetch recipes''),
                           (''details'', JStr ''invalid argument to $skip stage'')] \<rparr>
   \<and> fst (list_recipes plain quiet (bare\<lparr>q_page := Some (QStr ''abc'')\<rparr>) kitchen) =
       Sent \<lparr> status = 500,
              body = JObj [(''error'', JStr ''Failed to fetch recipes''),
                           (''details'', JStr ''invalid argument to $skip stage'')] \<rparr>"
  by code_simp

section \<open>Updating and deleting by identifier\<close>


lemma issue_fields:
  "cache (issue c w) = cache w \<and> docs (issue c w) = docs w \<and> calls (issue c w) = calls w @ [c]"
  by (simp add: issue_def)

lemma findByIdAndUpdate_absent:
  "cast_error D i = None \<Longrightarrow> store_error E = None \<Longrightarrow>
   find (\<lambda>r. rid r = i) (docs w) = None \<Longrightarrow>
   findByIdAndUpdate D E i b w = (Inr None, issue (FindByIdAndUpdate i b) w)"
  by (simp add: findByIdAndUpdate_def)

lemma findByIdAndDelete_absent:
  "cast_error D i = None \<Longrightarrow> store_error E = None \<Longrightarrow>
   find (\<lambda>r. rid r = i) (docs w) = None \<Longrightarrow>
   findByIdAndDelete D E i w = (Inr None, issue (FindByIdAndDelete i) w)"
  by (simp add: findByIdAndDelete_def)

lemma findByIdAndUpdate_unchanged:
  "findByIdAndUpdate D E i b w = (x, w') \<Longrightarrow> x = Inr None \<or> (\<exists>m. x = Inl m) \<Longrightarrow>
   cache w' = cache w \<and> docs w' = docs w \<and> console w' = console w \<and>
   (calls w' = calls w \<or> calls w' = calls w @ [FindByIdAndUpdate i b])"
  by (auto simp: findByIdAndUpdate_def issue_def Let_def split: option.splits)

lemma findByIdAndDelete_unchanged:
  "findByIdAndDelete D E i w = (x, w') \<Longrightarrow> x = Inr None \<or> (\<exists>m. x = Inl m) \<Longrightarrow>
   cache w' = cache w \<and> docs w' = docs w \<and> console w' = console w \<and>
   (calls w' = calls w \<or> calls w' = calls w @ [FindByIdAndDelete i])"
  by (auto simp: findByIdAndDelete_def issue_def split: option.splits)

lemma update_recipe_cases:
  "(\<exists>m w'. findByIdAndUpdate D E i b w = (Inl m, w') \<and>
      update_recipe D E i b w =
        (send 400 (error_details ''Failed to update recipe'' m),
         console_error ''Error updating recipe:'' m w'))
   \<or> (\<exists>w'. findByIdAndUpdate D E i b w = (Inr None, w') \<and>
      update_recipe D E i b w = (send 404 (error_only ''Recipe not found''), w'))
   \<or> (\<exists>u w'. findByIdAndUpdate D E i b w = (Inr (Some u), w') \<and>
      update_recipe D E i b w = (send 200 (recipe_json u), clearRecipeCache E w'))"
proof (cases "findByIdAndUpdate D E i b w")
  case (Pair x w')
  then show ?thesis
    by (cases x) (auto simp: update_recipe_def split: option.splits)
qed

lemma delete_recipe_cases:
  "(\<exists>m w'. findByIdAndDelete D E i w = (Inl m, w') \<and>
      delete_recipe D E i w =
        (send 500 (error_details ''Failed to delete recipe'' m),
         console_error ''Error deleting recipe:'' m w'))
   \<or> (\<exists>w'. findByIdAndDelete D E i w = (Inr None, w') \<and>
      delete_recipe D E i w = (send 404 (error_only ''Recipe not found''), w'))
   \<or> (\<exists>u w'. findByIdAndDelete D E i w = (Inr (Some u), w') \<and>
      delete_recipe D E i w =
        (send 200 (JObj [(''message'', JStr ''Recipe deleted successfully'')]),
         clearRecipeCache E w'))"
proof (cases "findByIdAndDelete D E i w")
  case (Pair x w')
  then show ?thesis
    by (cases x) (auto simp: delete_recipe_def split: option.splits)
qed

lemma update_recipe_error_path:
  assumes "fst (update_recipe D E i b w) = Sent r" and "status r \<noteq> 200"
  shows "cache (snd (update_recipe D E i b w)) = cache w \<and>
         docs (snd (update_recipe D E i b w)) = docs w \<and>
         (calls (snd (update_recipe D E i b w)) = calls w \<or>
          calls (snd (update_recipe D E i b w)) = calls w @ [FindByIdAndUpdate i b])"
  using update_recipe_cases [of D E i b w] assms
  by (auto simp: send_def console_error_def dest!: findByIdAndUpdate_unchanged)

lemma delete_recipe_error_path:
  assumes "fst (delete_recipe D E i w) = Sent r" and "status r \<noteq> 200"
  shows "cache (snd (delete_recipe D E i w)) = cache w \<and>
         docs (snd (delete_recipe D E i w)) = docs w \<and>
         (calls (snd (delete_recipe D E i w)) = calls w \<or>
          calls (snd (delete_recipe D E i w)) = calls w @ [FindByIdAndDelete i])"
  using delete_recipe_cases [of D E i w] assms
  by (auto simp: send_def console_error_def dest!: findByIdAndDelete_unchanged)


text \<open>
  C9. A PUT or a DELETE whose identifier matches no document is answered with 404 and
  evicts nothing: the only call issued is the one to the store, and the cache and the
  collection are as before. More generally, whenever one of the two handlers answers with
  a status other than 200, the cache and the collection are unchanged and no call goes to
  the cache: \<open>clearRecipeCache\<close> runs only after the store has changed a document.
\<close>

theorem not_found_leaves_cache:
  "(cast_error D i = None \<and> store_error E = None \<and>
    find (\<lambda>r. rid r = i) (docs w) = None
    \<longrightarrow> update_recipe D E i b w =
          (send 404 (error_only ''Recipe not found''), issue (FindByIdAndUpdate i b) w)
        \<and> delete_recipe D E i w =
          (send 404 (error_only ''Recipe not found''), issue (FindByIdAndDelete i) w)
        \<and> cache (snd (update_recipe D E i b w)) = cache w
        \<and> docs (snd (update_recipe D E i b w)) = docs w
        \<and> calls (snd (update_recipe D E i b w)) = calls w @ [FindByIdAndUpdate i b]
        \<and> cache (snd (delete_recipe D E i w)) = cache w
        \<and> docs (snd (delete_recipe D E i w)) = docs w
        \<and> calls (snd (delete_recipe D E i w)) = calls w @ [FindByIdAndDelete i])
   \<and> (fst (update_recipe D E i b w) = Sent r \<and> status r \<noteq> 200
      \<longrightarrow> cache (snd (update_recipe D E i b w)) = cache w
        \<and> docs (snd (update_recipe D E i b w)) = docs w
        \<and> (calls (snd (update_recipe D E i b w)) = calls w \<or>
           calls (snd (update_recipe D E i b w)) = calls w @ [FindByIdAndUpdate i b]))
   \<and> (fst (delete_recipe D E i w) = Sent r \<and> status r \<noteq> 200
      \<longrightarrow> cache (snd (delete_recipe D E i w)) = cache w
        \<and> docs (snd (delete_recipe D E i w)) = docs w
        \<and> (calls (snd (delete_recipe D E i w)) = calls w \<or>
           calls (snd (delete_recipe D E i w)) = calls w @ [FindByIdAndDelete i]))"
proof -
  have absent: "update_recipe D E i b w =
          (send 404 (error_only ''Recipe not found''), issue (FindByIdAndUpdate i b) w)
        \<and> delete_recipe D E i w =
          (send 404 (error_only ''Recipe not found''), issue (FindByIdAndDelete i) w)"
    if "cast_error D i = None \<and> store_error E = None \<and>
        find (\<lambda>r. rid r = i) (docs w) = None"
    using that
    by (simp add: update_recipe_def delete_recipe_def findByIdAndUpdate_absent
          findByIdAndDelete_absent)
  have upd: "cache (snd (update_recipe D E i b w)) = cache w
        \<and> docs (snd (update_recipe D E i b w)) = docs w
        \<and> (calls (snd (update_recipe D E i b w)) = calls w \<or>
           calls (snd (update_recipe D E i b w)) = calls w @ [FindByIdAndUpdate i b])"
    if "fst (update_recipe D E i b w) = Sent r \<and> status r \<noteq> 200"
    using that by (intro update_recipe_error_path [of D E i b w r]) simp_all
  have del: "cache (snd (delete_recipe D E i w)) = cache w
        \<and> docs (snd (delete_recipe D E i w)) = docs w
        \<and> (calls (snd (delete_recipe D E i w)) = calls w \<or>
           calls (snd (delete_recipe D E i w)) = calls w @ [FindByIdAndDelete i])"
    if "fst (delete_recipe D E i w) = Sent r \<and> status r \<noteq> 200"
    using that by (intro delete_recipe_error_path [of D E i w r]) simp_all
  from absent upd del show ?thesis
    by (simp add: issue_fields)
qed

lemma no_such_recipe:
  "cast_error plain ''65f0c0ffee65f0c0ffee0009'' = None \<and> store_error quiet = None \<and>
   find (\<lambda>r. rid r = ''65f0c0ffee65f0c0ffee0009'') (docs kitchen) = None"
  by code_simp

theorem not_found_leaves_cache_witness:
  "update_recipe plain quiet ''65f0c0ffee65f0c0ffee0009'' stew kitchen =
     (send 404 (error_only ''Recipe not found''),
      issue (FindByIdAndUpdate ''65f0c0ffee65f0c0ffee0009'' stew) kitchen)
   \<and> delete_recipe plain quiet ''65f0c0ffee65f0c0ffee0009'' kitchen =
     (send 404 (error_only ''Recipe not found''),
      issue (FindByIdAndDelete ''65f0c0ffee65f0c0ffee0009'') kitchen)
   \<and> cache (snd (update_recipe plain quiet ''65f0c0ffee65f0c0ffee0009'' stew kitchen)) =
       cache kitchen
   \<and> docs (snd (delete_recipe plain quiet ''65f0c0ffee65f0c0ffee0009'' kitchen)) =
       docs kitchen"
proof -
  note absent =
    not_found_leaves_cache [where D = plain and i = "''65f0c0ffee65f0c0ffee0009''"
      and E = quiet and w = kitchen and b = stew and r = "\<lparr> status = 404, body = JNull \<rparr>",
      THEN conjunct1, THEN mp, OF no_such_recipe]
  from absent show ?thesis
    by (elim conjE) (intro conjI, assumption+)
qed

section \<open>Error responses\<close>











subsection \<open>Answers of the application\<close>







lemma store_down:
  "fst (serve plain (quiet\<lparr>store_error := Some ''ECONNRESET''\<rparr>) (GetRecipes bare) kitchen) =
     Sent \<lparr> status = 500,
            body = JObj [(''error'', JStr ''Failed to fetch recipes''),
                         (''details'', JStr ''ECONNRESET'')] \<rparr>"
  by code_simp




section \<open>Invalidation\<close>


lemma cache_other_keys:
  assumes "k \<noteq> ''recipes:*''"
  shows "cache (snd (create_recipe D E b w)) k = cache w k"
    and "cache (snd (update_recipe D E i b w)) k = cache w k"
    and "cache (snd (delete_recipe D E i w)) k = cache w k"
  using assms
  by (auto simp: create_recipe_def update_recipe_def delete_recipe_def save_def
        findByIdAndUpdate_def findByIdAndDelete_def issue_def console_error_def Let_def
        cache_clearRecipeCache split: option.splits)

text \<open>
  C1 says that after a create, an update or a delete the cached list entries are evicted,
  so that the same list request is answered afresh. The code does not do that:
  \<open>clearRecipeCache\<close> deletes the one key named \<open>recipes:*\<close>, and no list request has
  that key, so every entry of the list cache survives each of the three handlers. In the
  kitchen, the list request is served and cached, the stew is created (201, two documents
  in the collection), and the same list request is then answered from the cache with the
  page of before, which counts one recipe, where the store would count two.
\<close>

theorem clearRecipeCache_spares_list_entries:
  "cache (clearRecipeCache E w) (cacheKey D q) = cache w (cacheKey D q)
   \<and> cache (snd (create_recipe D' E b w)) (cacheKey D q) = cache w (cacheKey D q)
   \<and> cache (snd (update_recipe D' E i b w)) (cacheKey D q) = cache w (cacheKey D q)
   \<and> cache (snd (delete_recipe D' E i w)) (cacheKey D q) = cache w (cacheKey D q)
   \<and> fst (list_recipes plain quiet bare kitchen) = Sent \<lparr> status = 200, body = soup_page \<rparr>
   \<and> fst (create_recipe plain quiet stew served) =
       Sent \<lparr> status = 201,
              body = JObj [(''_id'', JStr ''65f0c0ffee65f0c0ffee0002''),
                           (''title'', JStr ''Stew''), (''difficulty'', JStr ''hard'')] \<rparr>
   \<and> calls extended = calls served @
       [Save \<lparr> rid = ''65f0c0ffee65f0c0ffee0002'', content = stew \<rparr>, RedisDel ''recipes:*'']
   \<and> map rid (docs extended) = [''65f0c0ffee65f0c0ffee0001'', ''65f0c0ffee65f0c0ffee0002'']
   \<and> fst (list_recipes plain quiet bare extended) = Sent \<lparr> status = 200, body = soup_page \<rparr>
   \<and> calls (snd (list_recipes plain quiet bare extended)) =
       calls extended @ [RedisGet ''recipes:page=1&pageSize=10&search=&difficulty='']
   \<and> property soup_page ''totalRecipes'' = Some (JNum 1)
   \<and> map_sum id totalRecipes_of
        (store_answer plain quiet
           (list_pipeline plain bare
              [Or [Regex ''title'' \<lparr>source = [], flags = ''i''\<rparr>,
                   Regex ''ingredients.name'' \<lparr>source = [], flags = ''i''\<rparr>]])
           (docs extended)) = Inr (Fin 2)"
proof -
  have general: "cache (clearRecipeCache E w) (cacheKey D q) = cache w (cacheKey D q)"
    by (simp add: cache_clearRecipeCache cacheKey_not_pattern)
  note handlers = cache_other_keys [OF cacheKey_not_pattern [of D q]]
  have created: "fst (create_recipe plain quiet stew served) =
       Sent \<lparr> status = 201,
              body = JObj [(''_id'', JStr ''65f0c0ffee65f0c0ffee0002''),
                           (''title'', JStr ''Stew''), (''difficulty'', JStr ''hard'')] \<rparr>"
    by code_simp
  have called: "calls extended = calls served @
       [Save \<lparr> rid = ''65f0c0ffee65f0c0ffee0002'', content = stew \<rparr>, RedisDel ''recipes:*'']"
    by code_simp
  have stored: "map rid (docs extended) =
      [''65f0c0ffee65f0c0ffee0001'', ''65f0c0ffee65f0c0ffee0002'']"
    by code_simp
  have stale: "fst (list_recipes plain quiet bare extended) =
      Sent \<lparr> status = 200, body = soup_page \<rparr>"
    by code_simp
  have hit: "calls (snd (list_recipes plain quiet bare extended)) =
       calls extended @ [RedisGet ''recipes:page=1&pageSize=10&search=&difficulty='']"
    by code_simp
  have one: "property soup_page ''totalRecipes'' = Some (JNum 1)"
    by code_simp
  have two: "map_sum id totalRecipes_of
        (store_answer plain quiet
           (list_pipeline plain bare
              [Or [Regex ''title'' \<lparr>source = [], flags = ''i''\<rparr>,
                   Regex ''ingredients.name'' \<lparr>source = [], flags = ''i''\<rparr>]])
           (docs extended)) = Inr (Fin 2)"
    by code_simp
  from general handlers kitchen_page created called stored stale hit one two show ?thesis
    by (intro conjI)
qed

end
